theory Spec2Isabelle
  imports Main "HOL-Library.Word" "HOL-Library.Log_Nat"
begin

section \<open>Errors returned by the modelled packages\<close>

text \<open>
  The Go code returns \<open>error\<close> values.  The queue builds two of them on the spot
  (\<open>errors.New("repeated task")\<close>, \<open>errors.New("queue exceed")\<close>); the replicate task
  returns three package-level errors and passes through whatever its collaborators
  return (\<open>ErrExternal\<close> with the collaborator's message).
\<close>

datatype error =
    ErrRepeatedTask
  | ErrQueueExceed
  | ErrInvalidParams
  | ErrMismatchIntegrityHash
  | ErrExhaustedSP
  | ErrExternal string

section \<open>GfSpTQueueWithLimit: the bounded, keyed task queue\<close>

text \<open>
  \<open>coretask.Task\<close> is an interface; the queue only calls \<open>Key()\<close> and
  \<open>EstimateLimit()\<close>, so a task is the record of these two answers.  The limit type
  \<open>corercmgr.Limit\<close> is declared outside the modelled files: it is the type parameter
  \<open>'l\<close>, and its method \<open>NotLess\<close> is passed to the two functions that call it.
\<close>

type_synonym TKey = string

record 'l Task =
  Key :: TKey
  EstimateLimit :: 'l

text \<open>
  The struct, without its mutex.  \<open>tasks\<close> is the slice, \<open>indexer\<close> the Go map from key
  to slice index, \<open>cap\<close> a Go \<open>int\<close>.  The two strategy fields are function values that
  may be nil.
\<close>

record 'l GfSpTQueueWithLimit =
  name :: string
  tasks :: "'l Task list"
  indexer :: "TKey \<rightharpoonup> nat"
  cap :: int
  gcFunc :: "('l Task \<Rightarrow> bool) option"
  filterFunc :: "('l Task \<Rightarrow> bool) option"

definition NewGfSpTQueueWithLimit :: "string \<Rightarrow> int \<Rightarrow> 'l GfSpTQueueWithLimit" where
  "NewGfSpTQueueWithLimit nm c =
     \<lparr>name = nm, tasks = [], indexer = Map.empty, cap = c, gcFunc = None, filterFunc = None\<rparr>"

definition Len :: "'l GfSpTQueueWithLimit \<Rightarrow> int" where
  "Len t = int (length (tasks t))"

definition Cap :: "'l GfSpTQueueWithLimit \<Rightarrow> int" where
  "Cap t = cap t"

definition Has :: "TKey \<Rightarrow> 'l GfSpTQueueWithLimit \<Rightarrow> bool" where
  "Has k t = (indexer t k \<noteq> None)"

definition SetFilterTaskStrategy ::
  "('l Task \<Rightarrow> bool) option \<Rightarrow> 'l GfSpTQueueWithLimit \<Rightarrow> 'l GfSpTQueueWithLimit" where
  "SetFilterTaskStrategy f t = t\<lparr>filterFunc := f\<rparr>"

definition SetRetireTaskStrategy ::
  "('l Task \<Rightarrow> bool) option \<Rightarrow> 'l GfSpTQueueWithLimit \<Rightarrow> 'l GfSpTQueueWithLimit" where
  "SetRetireTaskStrategy f t = t\<lparr>gcFunc := f\<rparr>"

definition exceed :: "'l GfSpTQueueWithLimit \<Rightarrow> bool" where
  "exceed t = (int (length (tasks t)) \<ge> cap t)"

text \<open>\<open>add\<close>: append to the slice, then index the key at \<open>len(t.tasks) - 1\<close>.\<close>

definition add :: "'l Task \<Rightarrow> 'l GfSpTQueueWithLimit \<Rightarrow> 'l GfSpTQueueWithLimit" where
  "add task t =
     (let ts = tasks t @ [task]
      in t\<lparr>tasks := ts, indexer := (indexer t)(Key task \<mapsto> length ts - 1)\<rparr>)"

text \<open>
  \<open>delete\<close>: look the key up; return when it is absent or when the index is out of bounds
  (the branch that logs \<open>[BUG] index out of bounds\<close>); otherwise splice the slice at the
  index and delete the key from the map.  No other entry of the map is touched.
\<close>

definition delete :: "'l Task \<Rightarrow> 'l GfSpTQueueWithLimit \<Rightarrow> 'l GfSpTQueueWithLimit" where
  "delete task t =
     (case indexer t (Key task) of
        None \<Rightarrow> t
      | Some idx \<Rightarrow>
          if idx \<ge> length (tasks t) then t
          else t\<lparr>tasks := take idx (tasks t) @ drop (idx + 1) (tasks t),
                 indexer := (indexer t)(Key task := None)\<rparr>)"

text \<open>
  The loop of \<open>TopByLimit\<close>, \<open>for i := len(t.tasks) - 1; i >= 0; i--\<close>.  The argument
  \<open>Suc i\<close> stands for the loop variable \<open>i\<close>; \<open>0\<close> is the exit of the loop, where the
  function returns nil.
\<close>

fun TopByLimit_loop ::
  "('l \<Rightarrow> 'l \<Rightarrow> bool) \<Rightarrow> 'l \<Rightarrow> 'l GfSpTQueueWithLimit \<Rightarrow> nat \<Rightarrow> 'l Task option" where
  "TopByLimit_loop NotLess limit t 0 = None"
| "TopByLimit_loop NotLess limit t (Suc i) =
     (let task = tasks t ! i in
      if NotLess limit (EstimateLimit task) then
        (case filterFunc t of
           None \<Rightarrow> Some task
         | Some f \<Rightarrow> if f task then Some task else TopByLimit_loop NotLess limit t i)
      else TopByLimit_loop NotLess limit t i)"

definition TopByLimit ::
  "('l \<Rightarrow> 'l \<Rightarrow> bool) \<Rightarrow> 'l \<Rightarrow> 'l GfSpTQueueWithLimit \<Rightarrow> 'l Task option" where
  "TopByLimit NotLess limit t =
     (if length (tasks t) = 0 then None
      else TopByLimit_loop NotLess limit t (length (tasks t)))"

text \<open>
  \<open>PopByLimit\<close> declares \<open>var task\<close> before the loop, assigns \<open>task = t.tasks[i]\<close> at the top
  of every iteration, and its deferred function deletes \<open>task\<close> whenever that variable
  is not nil.  The loop therefore yields two things: the value returned, and the value
  the variable \<open>task\<close> holds when the function returns.
\<close>

fun PopByLimit_loop ::
  "('l \<Rightarrow> 'l \<Rightarrow> bool) \<Rightarrow> 'l \<Rightarrow> 'l GfSpTQueueWithLimit \<Rightarrow> nat \<Rightarrow> 'l Task option
    \<Rightarrow> 'l Task option \<times> 'l Task option" where
  "PopByLimit_loop NotLess limit t 0 task = (None, task)"
| "PopByLimit_loop NotLess limit t (Suc i) task =
     (let task' = tasks t ! i in
      if NotLess limit (EstimateLimit task') then
        (case filterFunc t of
           None \<Rightarrow> (Some task', Some task')
         | Some f \<Rightarrow>
             if f task' then (Some task', Some task')
             else PopByLimit_loop NotLess limit t i (Some task'))
      else PopByLimit_loop NotLess limit t i (Some task'))"

definition PopByLimit ::
  "('l \<Rightarrow> 'l \<Rightarrow> bool) \<Rightarrow> 'l \<Rightarrow> 'l GfSpTQueueWithLimit
    \<Rightarrow> 'l Task option \<times> 'l GfSpTQueueWithLimit" where
  "PopByLimit NotLess limit t =
     (let (ret, task) =
            (if length (tasks t) = 0 then (None, None)
             else PopByLimit_loop NotLess limit t (length (tasks t)) None)
      in (ret, case task of None \<Rightarrow> t | Some x \<Rightarrow> delete x t))"

definition PopByKey ::
  "TKey \<Rightarrow> 'l GfSpTQueueWithLimit \<Rightarrow> 'l Task option \<times> 'l GfSpTQueueWithLimit" where
  "PopByKey k t =
     (case indexer t k of
        None \<Rightarrow> (None, t)
      | Some idx \<Rightarrow>
          if idx \<ge> length (tasks t) then (None, t)
          else (let task = tasks t ! idx in (Some task, delete task t)))"

text \<open>
  The retire loop of \<open>Push\<close>, \<open>for _, backup := range t.tasks\<close>: the predicate is asked
  about \<open>backup\<close>, and the call is \<open>t.delete(task)\<close> with the task being pushed.  The range
  expression is evaluated once; \<open>delete\<close> could only shift the backing array when the
  pushed key is indexed, which the guard at the top of \<open>Push\<close> excludes (see
  \<open>delete_absent\<close> below), so the loop runs over the list as it was on entry.
\<close>

fun Push_retire ::
  "('l Task \<Rightarrow> bool) \<Rightarrow> 'l Task \<Rightarrow> 'l Task list \<Rightarrow> 'l GfSpTQueueWithLimit \<times> bool
    \<Rightarrow> 'l GfSpTQueueWithLimit \<times> bool" where
  "Push_retire gc task [] (t, clear) = (t, clear)"
| "Push_retire gc task (backup # rest) (t, clear) =
     (if gc backup then Push_retire gc task rest (delete task t, True)
      else Push_retire gc task rest (t, clear))"

definition Push ::
  "'l Task \<Rightarrow> 'l GfSpTQueueWithLimit \<Rightarrow> error option \<times> 'l GfSpTQueueWithLimit" where
  "Push task t =
     (if indexer t (Key task) \<noteq> None then (Some ErrRepeatedTask, t)
      else if exceed t then
        (let (t', clear) =
               (case gcFunc t of
                  None \<Rightarrow> (t, False)
                | Some gc \<Rightarrow> Push_retire gc task (tasks t) (t, False))
         in if \<not> clear then (Some ErrQueueExceed, t') else (None, add task t'))
      else (None, add task t))"

text \<open>
  Invariant I3 of the queue: the slice and the map have the same number of entries, and
  every indexed key points at a slot of the slice that holds a task with that key.
  \<open>len_agree\<close> is its first half alone.
\<close>

definition len_agree :: "'l GfSpTQueueWithLimit \<Rightarrow> bool" where
  "len_agree t \<longleftrightarrow> finite (dom (indexer t)) \<and> length (tasks t) = card (dom (indexer t))"

definition I3 :: "'l GfSpTQueueWithLimit \<Rightarrow> bool" where
  "I3 t \<longleftrightarrow>
     len_agree t \<and>
     (\<forall>k i. indexer t k = Some i \<longrightarrow> i < length (tasks t) \<and> Key (tasks t ! i) = k)"

text \<open>Sequences of the three mutating operations, run from a given queue.\<close>

datatype 'l queue_op = OpPush "'l Task" | OpPopByKey TKey | OpPopByLimit 'l

fun apply_queue_op ::
  "('l \<Rightarrow> 'l \<Rightarrow> bool) \<Rightarrow> 'l queue_op \<Rightarrow> 'l GfSpTQueueWithLimit \<Rightarrow> 'l GfSpTQueueWithLimit" where
  "apply_queue_op NotLess (OpPush task) t = snd (Push task t)"
| "apply_queue_op NotLess (OpPopByKey k) t = snd (PopByKey k t)"
| "apply_queue_op NotLess (OpPopByLimit limit) t = snd (PopByLimit NotLess limit t)"

fun run_queue_ops ::
  "('l \<Rightarrow> 'l \<Rightarrow> bool) \<Rightarrow> 'l queue_op list \<Rightarrow> 'l GfSpTQueueWithLimit \<Rightarrow> 'l GfSpTQueueWithLimit" where
  "run_queue_ops NotLess [] t = t"
| "run_queue_ops NotLess (x # xs) t = run_queue_ops NotLess xs (apply_queue_op NotLess x t)"

section \<open>The float64 arithmetic of the memory estimate\<close>

text \<open>
  \<open>init\<close> computes the memory estimate in Go \<open>float64\<close>: three conversions from unsigned
  integers, a division, an addition of 1, a multiplication, and a conversion back to
  \<open>int\<close>.  Every operand is non-negative, so the values that can occur are the
  non-negative finite doubles, \<open>+Inf\<close> and NaN.  A finite value is kept as the rational
  it denotes; each operation computes exactly and rounds once, to nearest, ties to
  even, with 53 significant bits, the subnormal spacing below \<open>2 powi -1022\<close> and
  overflow to \<open>+Inf\<close> from \<open>2 powi 1024\<close> on (IEEE 754 binary64, as the Go specification
  prescribes).
\<close>

datatype float64 = Fin rat | PInf | NaN

text \<open>\<open>ilog2 r\<close> is the binary exponent of a positive rational: \<open>2 powi e \<le> r < 2 powi (e + 1)\<close>.\<close>

definition ilog2 :: "rat \<Rightarrow> int" where
  "ilog2 r =
     (let (a, b) = quotient_of r;
          d = bitlen a - bitlen b
      in if 2 powi d \<le> r then d else d - 1)"

definition round_half_even :: "rat \<Rightarrow> int" where
  "round_half_even x =
     (let n = \<lfloor>x\<rfloor>; d = x - of_int n
      in if d < 1 / 2 then n
         else if 1 / 2 < d then n + 1
         else if even n then n else n + 1)"

definition f64_round :: "rat \<Rightarrow> float64" where
  "f64_round r =
     (if r = 0 then Fin 0
      else
        (let e = max (ilog2 r) (- 1022);
             q = 2 powi (e - 52);
             v = of_int (round_half_even (r / q)) * q
         in if 2 powi 1024 \<le> v then PInf else Fin v))"

fun f64_div :: "float64 \<Rightarrow> float64 \<Rightarrow> float64" where
  "f64_div (Fin a) (Fin b) =
     (if b = 0 then (if a = 0 then NaN else PInf) else f64_round (a / b))"
| "f64_div (Fin a) PInf = Fin 0"
| "f64_div PInf (Fin b) = PInf"
| "f64_div PInf PInf = NaN"
| "f64_div NaN y = NaN"
| "f64_div x NaN = NaN"

fun f64_add :: "float64 \<Rightarrow> float64 \<Rightarrow> float64" where
  "f64_add (Fin a) (Fin b) = f64_round (a + b)"
| "f64_add NaN y = NaN"
| "f64_add x NaN = NaN"
| "f64_add PInf y = PInf"
| "f64_add x PInf = PInf"

fun f64_mul :: "float64 \<Rightarrow> float64 \<Rightarrow> float64" where
  "f64_mul (Fin a) (Fin b) = f64_round (a * b)"
| "f64_mul NaN y = NaN"
| "f64_mul x NaN = NaN"
| "f64_mul PInf (Fin b) = (if b = 0 then NaN else PInf)"
| "f64_mul (Fin a) PInf = (if a = 0 then NaN else PInf)"
| "f64_mul PInf PInf = PInf"

text \<open>\<open>float64(n)\<close> for an unsigned or non-negative integer \<open>n\<close>.\<close>

definition float64_of_nat :: "nat \<Rightarrow> float64" where
  "float64_of_nat n = f64_round (of_nat n)"

text \<open>
  \<open>int(f)\<close> truncates towards zero.  When the value does not fit the 64-bit \<open>int\<close>, or is
  \<open>+Inf\<close> or NaN, the Go specification leaves the result to the implementation: the
  function \<open>impl\<close> stands for that choice.
\<close>

definition int_of_float64 :: "(float64 \<Rightarrow> int) \<Rightarrow> float64 \<Rightarrow> int" where
  "int_of_float64 impl f =
     (case f of
        Fin r \<Rightarrow> if \<lfloor>r\<rfloor> < 2 ^ 63 then \<lfloor>r\<rfloor> else impl f
      | PInf \<Rightarrow> impl f
      | NaN \<Rightarrow> impl f)"

section \<open>The replicate task: data\<close>

type_synonym bytes = "8 word list"

datatype RedundancyType = REDUNDANCY_EC_TYPE | REDUNDANCY_REPLICA_TYPE

text \<open>
  The fields of \<open>types.ObjectInfo\<close> that the task reads or writes.  The code reads the
  identifier only through \<open>Id.Uint64()\<close>; the field \<open>Id_Uint64\<close> is that value.
\<close>

record ObjectInfo =
  Id_Uint64 :: "64 word"
  BucketName :: string
  ObjectName :: string
  PayloadSize :: "64 word"
  RedundancyType :: RedundancyType
  Checksums :: "bytes list"
  SecondarySpAddresses :: "string list"

text \<open>
  \<open>storagetypes.Params\<close>: the segment size is a \<open>uint64\<close>, the two chunk numbers are
  \<open>uint32\<close>.  The task holds a pointer to it, nil before \<open>init\<close>; the getters answer zero
  on a nil pointer, so the all-zero record stands for nil.
\<close>

record Params =
  MaxSegmentSize :: "64 word"
  RedundantDataChunkNum :: "32 word"
  RedundantParityChunkNum :: "32 word"

record StorageProvider =
  Endpoint :: string
  Operator :: string
  ApprovalAddress :: string

type_synonym GetApprovalResponse = string

record MsgSealObject =
  SealOperator :: string
  SealBucketName :: string
  SealObjectName :: string
  SealSecondarySpAddresses :: "string list"
  SecondarySpSignatures :: "bytes list"

text \<open>A \<open>servicetypes.PieceInfo\<close> without its pointer back to the task's object.\<close>

record PieceInfo =
  Signature :: bytes
  IntegrityHash :: bytes

datatype JobState =
    JOB_STATE_REPLICATE_OBJECT_DOING
  | JOB_STATE_REPLICATE_OBJECT_ERROR
  | JOB_STATE_SIGN_OBJECT_DOING
  | JOB_STATE_SIGN_OBJECT_ERROR
  | JOB_STATE_SEAL_OBJECT_DOING
  | JOB_STATE_SEAL_OBJECT_ERROR
  | JOB_STATE_SEAL_OBJECT_DONE

text \<open>What the reader end of one pipe delivers: the pieces written, then EOF or an error.\<close>

record streamReader =
  pieces :: "bytes list"
  closeError :: "error option"

text \<open>
  The collaborators of the task, which live outside the modelled files: the SP
  database, the approval layer, the key sort of \<open>util/maps\<close>, the resource manager, the
  piece store, the erasure encoder, the gateway client, the signature functions, the
  signer and the chain.  Each is a function of its arguments and is taken to return for
  every argument it is given.  A call whose results the
  code assigns to fields of the task returns the values together with the optional
  error; a call whose results are dead on error returns a sum.  \<open>float64_to_int_impl\<close> is
  the implementation's choice in \<open>int_of_float64\<close>; \<open>sched\<close> orders the goroutines of one
  fan-out round (round number, then shard index, to a priority).
\<close>

record env =
  SpOperatorAddress :: string
  spDB_GetStorageParams :: "Params \<times> error option"
  ComputeSegmentCount :: "64 word \<Rightarrow> 64 word \<Rightarrow> 32 word"
  getApproval ::
    "ObjectInfo \<Rightarrow> int \<Rightarrow> int \<Rightarrow> int
      \<Rightarrow> (string \<rightharpoonup> StorageProvider) \<times> (string \<rightharpoonup> GetApprovalResponse) \<times> error option"
  SortKeys :: "(string \<rightharpoonup> GetApprovalResponse) \<Rightarrow> string list"
  rcScope_ReserveMemory :: "int \<Rightarrow> error option"
  float64_to_int_impl :: "float64 \<Rightarrow> int"
  EncodeSegmentPieceKey :: "64 word \<Rightarrow> 32 word \<Rightarrow> string"
  pieceStore_GetPiece :: "string \<Rightarrow> int \<Rightarrow> int \<Rightarrow> error + bytes"
  EncodeRawSegment :: "bytes \<Rightarrow> int \<Rightarrow> int \<Rightarrow> error + bytes list"
  NewGatewayClient :: "string \<Rightarrow> error option"
  ReplicateObjectPieceStream ::
    "string \<Rightarrow> 64 word \<Rightarrow> 32 word \<Rightarrow> 32 word \<Rightarrow> GetApprovalResponse option \<Rightarrow> streamReader
      \<Rightarrow> error + bytes \<times> bytes"
  GetSignBytes :: "string \<Rightarrow> 64 word \<Rightarrow> bytes \<Rightarrow> bytes"
  AccAddressFromHexUnsafe :: "string \<Rightarrow> error + bytes"
  Keccak256 :: "bytes \<Rightarrow> bytes"
  VerifySignature :: "bytes \<Rightarrow> bytes \<Rightarrow> bytes \<Rightarrow> error option"
  signer_SealObjectOnChain :: "MsgSealObject \<Rightarrow> error option"
  chain_ListenObjectSeal :: "string \<Rightarrow> string \<Rightarrow> int \<Rightarrow> error option"
  sched :: "nat \<Rightarrow> nat \<Rightarrow> nat"

text \<open>The calls the task makes on stateful collaborators, in the order it makes them.\<close>

datatype event =
    EvGetStorageParams
  | EvGetApproval int int int
  | EvReserveMemory int
  | EvReleaseMemory int
  | EvUpdateJobState "64 word" JobState
  | EvReplicate string nat
  | EvSetObjectInfo "64 word" ObjectInfo
  | EvCacheAdd "64 word" "PieceInfo option list"
  | EvSealObjectOnChain MsgSealObject
  | EvListenObjectSeal string string int

text \<open>The struct \<open>replicateObjectTask\<close>, without its context, task node and mutex.\<close>

record replicateObjectTask =
  objectInfo :: ObjectInfo
  approximateMemSize :: int
  storageParams :: Params
  segmentPieceNumber :: int
  redundancyNumber :: int
  spMap :: "string \<rightharpoonup> StorageProvider"
  approvalResponseMap :: "string \<rightharpoonup> GetApprovalResponse"
  sortedSpEndpoints :: "string list"

definition ReplicateFactor :: int where
  "ReplicateFactor = 1"

definition GetApprovalTimeout :: int where
  "GetApprovalTimeout = 10"

text \<open>\<open>newReplicateObjectTask\<close>; of its three nil checks the one on the object is modelled.\<close>

definition newReplicateObjectTask :: "ObjectInfo option \<Rightarrow> error + replicateObjectTask" where
  "newReplicateObjectTask object =
     (case object of
        None \<Rightarrow> Inl ErrInvalidParams
      | Some obj \<Rightarrow>
          Inr \<lparr>objectInfo = obj, approximateMemSize = 0,
               storageParams = \<lparr>MaxSegmentSize = 0, RedundantDataChunkNum = 0,
                                RedundantParityChunkNum = 0\<rparr>,
               segmentPieceNumber = 0, redundancyNumber = 0,
               spMap = Map.empty, approvalResponseMap = Map.empty, sortedSpEndpoints = []\<rparr>)"

section \<open>The replicate task: init\<close>

text \<open>
  The expression
  \<open>int(float64(sz) * (float64(t.redundancyNumber)/float64(dataChunkNum) + 1))\<close>,
  which \<open>init\<close> evaluates with the segment size for \<open>sz\<close> and, when the payload is smaller, again
  for the payload size.  \<open>t.redundancyNumber\<close> is never negative there.
\<close>

definition memEstimate :: "(float64 \<Rightarrow> int) \<Rightarrow> nat \<Rightarrow> int \<Rightarrow> 32 word \<Rightarrow> int" where
  "memEstimate impl sz rn k =
     int_of_float64 impl
       (f64_mul (float64_of_nat sz)
          (f64_add (f64_div (float64_of_nat (nat rn)) (float64_of_nat (unat k))) (Fin 1)))"

text \<open>
  \<open>init\<close> returns its error, the task as the assignments made so far leave it, and the
  calls made.  The sum of the two chunk numbers is a \<open>uint32\<close> sum, converted to \<open>int\<close>
  afterwards.
\<close>

definition init :: "env \<Rightarrow> replicateObjectTask \<Rightarrow> error option \<times> replicateObjectTask \<times> event list" where
  "init env t =
     (case spDB_GetStorageParams env of (p, err1) \<Rightarrow>
      (let t1 = t\<lparr>storageParams := p\<rparr> in
       (case err1 of
          Some e \<Rightarrow> (Some e, t1, [EvGetStorageParams])
        | None \<Rightarrow>
           (let t2 = t1\<lparr>segmentPieceNumber :=
                          uint (ComputeSegmentCount env (PayloadSize (objectInfo t1)) (MaxSegmentSize p)),
                       redundancyNumber :=
                          uint (RedundantDataChunkNum p + RedundantParityChunkNum p)\<rparr>
            in
            if redundancyNumber t2 + 1 \<noteq> int (length (Checksums (objectInfo t2)))
            then (Some ErrInvalidParams, t2, [EvGetStorageParams])
            else
              (case getApproval env (objectInfo t2) (redundancyNumber t2)
                      (redundancyNumber t2 * ReplicateFactor) GetApprovalTimeout of
                 (sps, apps, err2) \<Rightarrow>
                 (let t3 = t2\<lparr>spMap := sps, approvalResponseMap := apps\<rparr>;
                      ev3 = [EvGetStorageParams,
                             EvGetApproval (redundancyNumber t2)
                               (redundancyNumber t2 * ReplicateFactor) GetApprovalTimeout]
                  in
                  (case err2 of
                     Some e \<Rightarrow> (Some e, t3, ev3)
                   | None \<Rightarrow>
                      (let t4 = t3\<lparr>sortedSpEndpoints := SortKeys env (approvalResponseMap t3)\<rparr>;
                           t5 = t4\<lparr>approximateMemSize :=
                                      memEstimate (float64_to_int_impl env) (unat (MaxSegmentSize p))
                                        (redundancyNumber t4) (RedundantDataChunkNum p)\<rparr>;
                           t6 = (if PayloadSize (objectInfo t5) < MaxSegmentSize p
                                 then t5\<lparr>approximateMemSize :=
                                           memEstimate (float64_to_int_impl env)
                                             (unat (PayloadSize (objectInfo t5)))
                                             (redundancyNumber t5) (RedundantDataChunkNum p)\<rparr>
                                 else t5);
                           ev = ev3 @ [EvReserveMemory (approximateMemSize t6)]
                       in
                       (case rcScope_ReserveMemory env (approximateMemSize t6) of
                          Some e \<Rightarrow> (Some e, t6, ev)
                        | None \<Rightarrow> (None, t6, ev))))))))))"

section \<open>The stream reader group\<close>

text \<open>
  \<open>streamReaderMap\<close> is a Go map from shard index to a fresh pipe; it is kept as the list
  of its keys, without repetition.  \<open>pieceSize\<close> is a Go \<open>int\<close>.
\<close>

record streamReaderGroup =
  pieceSize :: int
  streamReaderMap :: "nat list"

text \<open>
  The two nested loops of \<open>newStreamReaderGroup\<close>.  \<open>excludeIndexMap[idx]\<close> reads a
  \<open>map[int]bool\<close>, false for a missing key.  The pair carried through is the map built
  so far and the flag \<open>atLeastHasOne\<close>.
\<close>

fun newStreamReaderGroup_idx ::
  "(nat \<rightharpoonup> bool) \<Rightarrow> nat list \<Rightarrow> nat list \<times> bool \<Rightarrow> nat list \<times> bool" where
  "newStreamReaderGroup_idx excludeIndexMap [] acc = acc"
| "newStreamReaderGroup_idx excludeIndexMap (idx # rest) (m, atLeastHasOne) =
     (if excludeIndexMap idx = Some True
      then newStreamReaderGroup_idx excludeIndexMap rest (m, atLeastHasOne)
      else newStreamReaderGroup_idx excludeIndexMap rest (List.insert idx m, True))"

fun newStreamReaderGroup_seg ::
  "(nat \<rightharpoonup> bool) \<Rightarrow> nat list \<Rightarrow> nat list \<Rightarrow> nat list \<times> bool \<Rightarrow> nat list \<times> bool" where
  "newStreamReaderGroup_seg excludeIndexMap [] idxs acc = acc"
| "newStreamReaderGroup_seg excludeIndexMap (segmentPieceIdx # rest) idxs acc =
     newStreamReaderGroup_seg excludeIndexMap rest idxs
       (newStreamReaderGroup_idx excludeIndexMap idxs acc)"

definition newStreamReaderGroup ::
  "replicateObjectTask \<Rightarrow> (nat \<rightharpoonup> bool) \<Rightarrow> error + streamReaderGroup" where
  "newStreamReaderGroup t excludeIndexMap =
     (case newStreamReaderGroup_seg excludeIndexMap
             [0..<nat (segmentPieceNumber t)] [0..<nat (redundancyNumber t)] ([], False) of
        (m, atLeastHasOne) \<Rightarrow>
          if \<not> atLeastHasOne then Inl ErrInvalidParams
          else Inr \<lparr>pieceSize = 0, streamReaderMap = m\<rparr>)"

text \<open>
  What the producer goroutine does, in order: a send on the piece-size channel, a write
  into the pipe of a shard, the close of a pipe with or without an error.  An index
  out of range in the goroutine is a panic, which ends the process.  The channel itself
  is closed by the deferred \<open>close\<close> whenever the goroutine returns.  The sequence is the
  one the goroutine runs through when the readers drain their pipes.
\<close>

datatype pevent =
    SendPieceSize int
  | PipeWrite nat bytes
  | PipeCloseWithError nat error
  | PipeClose nat
  | ProducerPanic

text \<open>
  \<open>for idx := range sg.streamReaderMap { ... Write(ecPieceData[idx]) }\<close>: the writes, and
  whether the loop came to its end.
\<close>

fun write_shards :: "bytes list \<Rightarrow> nat list \<Rightarrow> pevent list \<times> bool" where
  "write_shards ecPieceData [] = ([], True)"
| "write_shards ecPieceData (idx # rest) =
     (if idx < length ecPieceData then
        (case write_shards ecPieceData rest of
           (evs, ok) \<Rightarrow> (PipeWrite idx (ecPieceData ! idx) # evs, ok))
      else ([ProducerPanic], False))"

text \<open>
  The loop over the segments.  The list argument holds the segment indices still to
  come, the flag is \<open>gotPieceSize\<close>; the empty list is the exit of the loop, where every
  pipe is closed without error.
\<close>

fun produce_segments ::
  "env \<Rightarrow> replicateObjectTask \<Rightarrow> nat list \<Rightarrow> nat list \<Rightarrow> bool \<Rightarrow> pevent list" where
  "produce_segments env t keys [] gotPieceSize = map PipeClose keys"
| "produce_segments env t keys (segmentPieceIdx # rest) gotPieceSize =
     (case pieceStore_GetPiece env
             (EncodeSegmentPieceKey env (Id_Uint64 (objectInfo t)) (word_of_nat segmentPieceIdx))
             0 0 of
        Inl err \<Rightarrow> map (\<lambda>idx. PipeCloseWithError idx err) keys
      | Inr segmentPieceData \<Rightarrow>
          if RedundancyType (objectInfo t) = REDUNDANCY_EC_TYPE then
            (case EncodeRawSegment env segmentPieceData
                    (uint (RedundantDataChunkNum (storageParams t)))
                    (uint (RedundantParityChunkNum (storageParams t))) of
               Inl err \<Rightarrow> map (\<lambda>idx. PipeCloseWithError idx err) keys
             | Inr ecPieceData \<Rightarrow>
                 if \<not> gotPieceSize \<and> ecPieceData = [] then [ProducerPanic]
                 else
                   (case write_shards ecPieceData keys of
                      (evs, ok) \<Rightarrow>
                        (if \<not> gotPieceSize
                         then [SendPieceSize (int (length (ecPieceData ! 0)))] else [])
                        @ evs
                        @ (if ok then produce_segments env t keys rest True else [])))
          else
            (if \<not> gotPieceSize then [SendPieceSize (int (length segmentPieceData))] else [])
            @ map (\<lambda>idx. PipeWrite idx segmentPieceData) keys
            @ produce_segments env t keys rest True)"

definition producer_events :: "env \<Rightarrow> replicateObjectTask \<Rightarrow> streamReaderGroup \<Rightarrow> pevent list" where
  "producer_events env t sg =
     produce_segments env t (streamReaderMap sg) [0..<nat (segmentPieceNumber t)] False"

text \<open>
  \<open>sg.pieceSize = <-ch\<close>: the one receive of the consumer.  It yields the value sent, or
  the zero value when the goroutine returns, and so closes the channel, without
  sending.
\<close>

fun receive_pieceSize :: "pevent list \<Rightarrow> int" where
  "receive_pieceSize [] = 0"
| "receive_pieceSize (SendPieceSize n # rest) = n"
| "receive_pieceSize (e # rest) = receive_pieceSize rest"

definition produceStreamPieceData ::
  "env \<Rightarrow> replicateObjectTask \<Rightarrow> streamReaderGroup \<Rightarrow> streamReaderGroup \<times> pevent list" where
  "produceStreamPieceData env t sg =
     (let evs = producer_events env t sg
      in (sg\<lparr>pieceSize := receive_pieceSize evs\<rparr>, evs))"

text \<open>What the pipe of one shard carries, read off the producer's events.\<close>

fun pipe_pieces :: "nat \<Rightarrow> pevent list \<Rightarrow> bytes list" where
  "pipe_pieces idx [] = []"
| "pipe_pieces idx (PipeWrite i b # rest) =
     (if i = idx then b # pipe_pieces idx rest else pipe_pieces idx rest)"
| "pipe_pieces idx (e # rest) = pipe_pieces idx rest"

fun pipe_closeError :: "nat \<Rightarrow> pevent list \<Rightarrow> error option" where
  "pipe_closeError idx [] = None"
| "pipe_closeError idx (PipeCloseWithError i err # rest) =
     (if i = idx then Some err else pipe_closeError idx rest)"
| "pipe_closeError idx (e # rest) = pipe_closeError idx rest"

definition pipe_reader :: "nat \<Rightarrow> pevent list \<Rightarrow> streamReader" where
  "pipe_reader idx evs = \<lparr>pieces = pipe_pieces idx evs, closeError = pipe_closeError idx evs\<rparr>"

section \<open>The replicator\<close>

text \<open>
  The struct \<open>streamPieceDataReplicator\<close>.  A storage provider or an approval taken from
  a map may be nil; the getters of a nil provider answer the zero value.
\<close>

record streamPieceDataReplicator =
  rtask :: replicateObjectTask
  rpieceSize :: "32 word"
  redundancyIndex :: "32 word"
  expectedIntegrityHash :: bytes
  rstreamReader :: streamReader
  sp :: "StorageProvider option"
  approval :: "GetApprovalResponse option"

definition theSp :: "StorageProvider option \<Rightarrow> StorageProvider" where
  "theSp x = (case x of None \<Rightarrow> \<lparr>Endpoint = [], Operator = [], ApprovalAddress = []\<rparr> | Some s \<Rightarrow> s)"

text \<open>
  \<open>replicate\<close>: success is the return with a nil error, which carries the integrity hash
  and the signature the gateway answered.
\<close>

definition streamPieceDataReplicator_replicate ::
  "env \<Rightarrow> streamPieceDataReplicator \<Rightarrow> error + bytes \<times> bytes" where
  "streamPieceDataReplicator_replicate env r =
     (case NewGatewayClient env (Endpoint (theSp (sp r))) of
        Some err \<Rightarrow> Inl err
      | None \<Rightarrow>
         (case ReplicateObjectPieceStream env (Endpoint (theSp (sp r)))
                 (Id_Uint64 (objectInfo (rtask r))) (rpieceSize r) (redundancyIndex r)
                 (approval r) (rstreamReader r) of
            Inl err \<Rightarrow> Inl err
          | Inr (integrityHash, signature) \<Rightarrow>
              if expectedIntegrityHash r \<noteq> integrityHash then Inl ErrMismatchIntegrityHash
              else
                (let originMsgHash =
                       GetSignBytes env (Operator (theSp (sp r)))
                         (Id_Uint64 (objectInfo (rtask r))) integrityHash
                 in
                 (case AccAddressFromHexUnsafe env (ApprovalAddress (theSp (sp r))) of
                    Inl err \<Rightarrow> Inl err
                  | Inr approvalAddr \<Rightarrow>
                     (case VerifySignature env approvalAddr (Keccak256 env originMsgHash)
                             signature of
                        Some err \<Rightarrow> Inl err
                      | None \<Rightarrow> Inr (integrityHash, signature))))))"

section \<open>The replicate task: execute\<close>

text \<open>A step either goes on with a value or panics, which ends the process.\<close>

datatype 'a result = Ok 'a | Panic

fun isAllSucceed_loop :: "(nat \<rightharpoonup> bool) \<Rightarrow> nat list \<Rightarrow> bool" where
  "isAllSucceed_loop inputIndexMap [] = True"
| "isAllSucceed_loop inputIndexMap (i # rest) =
     (if inputIndexMap i \<noteq> Some True then False else isAllSucceed_loop inputIndexMap rest)"

definition isAllSucceed :: "replicateObjectTask \<Rightarrow> (nat \<rightharpoonup> bool) \<Rightarrow> bool" where
  "isAllSucceed t inputIndexMap = isAllSucceed_loop inputIndexMap [0..<nat (redundancyNumber t)]"

text \<open>
  \<open>pickSp\<close>: exhausted when the approval map is empty; otherwise the head of the sorted
  endpoints (an index out of range when that slice is empty) is looked up in both maps
  and removed from all three.
\<close>

definition pickSp ::
  "replicateObjectTask \<Rightarrow>
   ((error + StorageProvider option \<times> GetApprovalResponse option) \<times> replicateObjectTask) result" where
  "pickSp t =
     (if approvalResponseMap t = Map.empty then Ok (Inl ErrExhaustedSP, t)
      else
        (case sortedSpEndpoints t of
           [] \<Rightarrow> Panic
         | endpoint # rest \<Rightarrow>
             Ok (Inr (spMap t endpoint, approvalResponseMap t endpoint),
                 t\<lparr>sortedSpEndpoints := rest,
                   spMap := (spMap t)(endpoint := None),
                   approvalResponseMap := (approvalResponseMap t)(endpoint := None)\<rparr>)))"

text \<open>The variables of \<open>execute\<close> that the goroutines of a round share, and the calls made.\<close>

record exec_state =
  tsk :: replicateObjectTask
  sealMsg :: MsgSealObject
  progressInfo :: "PieceInfo option list"
  succeedIndexMap :: "nat \<rightharpoonup> bool"
  events :: "event list"

text \<open>The replicator that the goroutine of shard \<open>rIdx\<close> builds.\<close>

definition mk_replicator ::
  "replicateObjectTask \<Rightarrow> streamReaderGroup \<Rightarrow> pevent list \<Rightarrow> nat
    \<Rightarrow> StorageProvider option \<Rightarrow> GetApprovalResponse option \<Rightarrow> streamPieceDataReplicator" where
  "mk_replicator t sg pevs rIdx sp0 approval0 =
     \<lparr>rtask = t,
      rpieceSize = word_of_int (pieceSize sg),
      redundancyIndex = word_of_nat rIdx,
      expectedIntegrityHash = Checksums (objectInfo t) ! (rIdx + 1),
      rstreamReader = pipe_reader rIdx pevs,
      sp = sp0,
      approval = approval0\<rparr>"

text \<open>
  The body of one goroutine of the fan-out.  Reading \<open>GetChecksums()[rIdx+1]\<close> beyond the
  list panics.  The slices written at \<open>rIdx\<close> were made with \<open>redundancyNumber\<close> slots and
  \<open>rIdx\<close> is a key of the stream reader map, hence below \<open>redundancyNumber\<close>.
\<close>

definition replicate_shard ::
  "env \<Rightarrow> streamReaderGroup \<Rightarrow> pevent list \<Rightarrow> nat \<Rightarrow> exec_state \<Rightarrow> exec_state result" where
  "replicate_shard env sg pevs rIdx s =
     (case pickSp (tsk s) of
        Panic \<Rightarrow> Panic
      | Ok (Inl innerErr, t') \<Rightarrow> Ok (s\<lparr>tsk := t'\<rparr>)
      | Ok (Inr (sp0, approval0), t') \<Rightarrow>
          if length (Checksums (objectInfo t')) \<le> rIdx + 1 then Panic
          else
            (let r = mk_replicator t' sg pevs rIdx sp0 approval0;
                 s1 = s\<lparr>tsk := t', events := events s @ [EvReplicate (Endpoint (theSp sp0)) rIdx]\<rparr>
             in
             (case streamPieceDataReplicator_replicate env r of
                Inl innerErr \<Rightarrow> Ok s1
              | Inr (integrityHash, signature) \<Rightarrow>
                 (let oi = (objectInfo t')
                             \<lparr>SecondarySpAddresses :=
                                (SecondarySpAddresses (objectInfo t'))[rIdx := Operator (theSp sp0)]\<rparr>;
                      prog = (progressInfo s)
                               [rIdx := Some \<lparr>Signature = signature, IntegrityHash = integrityHash\<rparr>]
                  in
                  Ok (s1\<lparr>succeedIndexMap := (succeedIndexMap s)(rIdx \<mapsto> True),
                         sealMsg := (sealMsg s)
                           \<lparr>SealSecondarySpAddresses :=
                              (SealSecondarySpAddresses (sealMsg s))[rIdx := Operator (theSp sp0)],
                            SecondarySpSignatures :=
                              (SecondarySpSignatures (sealMsg s))[rIdx := signature]\<rparr>,
                         progressInfo := prog,
                         tsk := t'\<lparr>objectInfo := oi\<rparr>,
                         events := events s1 @
                           [EvSetObjectInfo (Id_Uint64 oi) oi, EvCacheAdd (Id_Uint64 oi) prog]\<rparr>)))))"

text \<open>
  One round of the fan-out up to \<open>wg.Wait()\<close>.  The goroutines meet at the mutex of
  \<open>pickSp\<close>; they are run one after the other, in the order given.
\<close>

fun fan_out ::
  "env \<Rightarrow> streamReaderGroup \<Rightarrow> pevent list \<Rightarrow> nat list \<Rightarrow> exec_state \<Rightarrow> exec_state result" where
  "fan_out env sg pevs [] s = Ok s"
| "fan_out env sg pevs (rIdx # rest) s =
     (case replicate_shard env sg pevs rIdx s of
        Panic \<Rightarrow> Panic
      | Ok s' \<Rightarrow> fan_out env sg pevs rest s')"

text \<open>
  The \<open>for\<close> loop of \<open>execute\<close>.  It is left by \<open>break\<close> when every shard has succeeded and
  by \<open>return\<close> when the stream reader group cannot be built or needs more pipes than
  endpoints remain.  The first argument bounds the number of rounds: \<open>None\<close> means the
  bound was too small.
\<close>

datatype loop_exit = Break | Return

fun execute_loop ::
  "nat \<Rightarrow> env \<Rightarrow> nat \<Rightarrow> exec_state \<Rightarrow> (loop_exit \<times> exec_state) result option" where
  "execute_loop 0 env rnd s = None"
| "execute_loop (Suc fuel) env rnd s =
     (if isAllSucceed (tsk s) (succeedIndexMap s) then Some (Ok (Break, s))
      else
        (case newStreamReaderGroup (tsk s) (succeedIndexMap s) of
           Inl err \<Rightarrow> Some (Ok (Return, s))
         | Inr sg \<Rightarrow>
             if length (streamReaderMap sg) > length (sortedSpEndpoints (tsk s))
             then Some (Ok (Return, s))
             else
               (case produceStreamPieceData env (tsk s) sg of
                  (sg', pevs) \<Rightarrow>
                    if ProducerPanic \<in> set pevs then Some Panic
                    else
                      (case fan_out env sg' pevs
                              (sort_key (sched env rnd) (streamReaderMap sg')) s of
                         Panic \<Rightarrow> Some Panic
                       | Ok s' \<Rightarrow> execute_loop fuel env (Suc rnd) s'))))"

text \<open>
  The code after the loop, followed by the deferred \<open>ReleaseMemory\<close>, which runs on
  every return.
\<close>

definition execute_exit :: "env \<Rightarrow> loop_exit \<Rightarrow> exec_state \<Rightarrow> event list" where
  "execute_exit env ex s =
     (let t = tsk s;
          oid = Id_Uint64 (objectInfo t);
          release = [EvReleaseMemory (approximateMemSize t)]
      in
      (case ex of
         Return \<Rightarrow> events s @ release
       | Break \<Rightarrow>
           if isAllSucceed t (succeedIndexMap s) then
             (let ev1 = events s @
                    [EvUpdateJobState oid JOB_STATE_SIGN_OBJECT_DOING,
                     EvSealObjectOnChain (sealMsg s)]
              in
              (case signer_SealObjectOnChain env (sealMsg s) of
                 Some err \<Rightarrow>
                   ev1 @ [EvUpdateJobState oid JOB_STATE_SIGN_OBJECT_ERROR] @ release
               | None \<Rightarrow>
                  (let ev2 = ev1 @
                         [EvUpdateJobState oid JOB_STATE_SEAL_OBJECT_DOING,
                          EvListenObjectSeal (BucketName (objectInfo t)) (ObjectName (objectInfo t)) 10]
                   in
                   (case chain_ListenObjectSeal env (BucketName (objectInfo t))
                           (ObjectName (objectInfo t)) 10 of
                      Some err \<Rightarrow>
                        ev2 @ [EvUpdateJobState oid JOB_STATE_SEAL_OBJECT_ERROR] @ release
                    | None \<Rightarrow>
                        ev2 @ [EvUpdateJobState oid JOB_STATE_SEAL_OBJECT_DONE] @ release))))
           else events s @ [EvUpdateJobState oid JOB_STATE_REPLICATE_OBJECT_ERROR] @ release))"

text \<open>
  \<open>execute\<close>: the job state is set to replicate-doing, the shared variables are made, the
  loop runs, and the exit code follows.  The result is the list of calls made and the
  task as the run leaves it.  \<open>redundancyNumber\<close> is never negative (0 from the
  constructor, a converted \<open>uint32\<close> from \<open>init\<close>), so the three \<open>make\<close> calls get a valid
  length.
\<close>

definition execute_start :: "env \<Rightarrow> replicateObjectTask \<Rightarrow> exec_state" where
  "execute_start env t =
     (let n = nat (redundancyNumber t)
      in \<lparr>tsk = t\<lparr>objectInfo := (objectInfo t)\<lparr>SecondarySpAddresses := replicate n []\<rparr>\<rparr>,
          sealMsg = \<lparr>SealOperator = SpOperatorAddress env,
                     SealBucketName = BucketName (objectInfo t),
                     SealObjectName = ObjectName (objectInfo t),
                     SealSecondarySpAddresses = replicate n [],
                     SecondarySpSignatures = replicate n []\<rparr>,
          progressInfo = replicate n None,
          succeedIndexMap = Map.empty,
          events = [EvUpdateJobState (Id_Uint64 (objectInfo t)) JOB_STATE_REPLICATE_OBJECT_DOING]\<rparr>)"

definition execute ::
  "nat \<Rightarrow> env \<Rightarrow> replicateObjectTask \<Rightarrow> (event list \<times> replicateObjectTask) result option" where
  "execute fuel env t =
     (case execute_loop fuel env 0 (execute_start env t) of
        None \<Rightarrow> None
      | Some Panic \<Rightarrow> Some Panic
      | Some (Ok (ex, s)) \<Rightarrow> Some (Ok (execute_exit env ex s, tsk s)))"

section \<open>Concrete scenarios\<close>

text \<open>
  Inputs on which the theorems below are exercised: an object with \<open>n\<close> checksums, the
  \<open>i\<close>-th being the single byte \<open>i\<close>; storage parameters; and collaborators that all
  succeed, for a pool of the given endpoints.  The secondary at any endpoint answers
  shard \<open>i\<close> with the integrity hash \<open>[i + 1]\<close> and the signature \<open>[7]\<close>; every segment is
  the two bytes \<open>[1, 2]\<close> and the encoder returns the segment once per shard.
\<close>

definition scenario_object :: "64 word \<Rightarrow> nat \<Rightarrow> ObjectInfo" where
  "scenario_object payload n =
     \<lparr>Id_Uint64 = 1, BucketName = ''bucket'', ObjectName = ''object'', PayloadSize = payload,
      RedundancyType = REDUNDANCY_EC_TYPE,
      Checksums = map (\<lambda>i. [word_of_nat i]) [0..<n],
      SecondarySpAddresses = []\<rparr>"

definition scenario_sp :: "string \<Rightarrow> StorageProvider" where
  "scenario_sp e = \<lparr>Endpoint = e, Operator = e, ApprovalAddress = e\<rparr>"

definition scenario_env :: "Params \<Rightarrow> string list \<Rightarrow> env" where
  "scenario_env p endpoints =
     \<lparr>SpOperatorAddress = ''primary'',
      spDB_GetStorageParams = (p, None),
      ComputeSegmentCount =
        (\<lambda>payload seg. word_of_nat ((unat payload + unat seg - 1) div unat seg)),
      getApproval =
        (\<lambda>obj low high timeout.
           (map_of (map (\<lambda>e. (e, scenario_sp e)) endpoints),
            map_of (map (\<lambda>e. (e, e)) endpoints), None)),
      SortKeys = (\<lambda>m. endpoints),
      rcScope_ReserveMemory = (\<lambda>n. None),
      float64_to_int_impl = (\<lambda>f. 0),
      EncodeSegmentPieceKey = (\<lambda>oid idx. ''piece''),
      pieceStore_GetPiece = (\<lambda>k off len. Inr [1, 2]),
      EncodeRawSegment = (\<lambda>b k m. Inr (replicate (nat (k + m)) b)),
      NewGatewayClient = (\<lambda>e. None),
      ReplicateObjectPieceStream =
        (\<lambda>e oid psize idx appr rd. Inr ([ucast (idx + 1)], [7])),
      GetSignBytes = (\<lambda>operator oid h. h),
      AccAddressFromHexUnsafe = (\<lambda>a. Inr []),
      Keccak256 = (\<lambda>b. b),
      VerifySignature = (\<lambda>addr h sig. None),
      signer_SealObjectOnChain = (\<lambda>m. None),
      chain_ListenObjectSeal = (\<lambda>b ob n. None),
      sched = (\<lambda>rnd idx. idx)\<rparr>"

definition scenario_task :: "64 word \<Rightarrow> nat \<Rightarrow> replicateObjectTask" where
  "scenario_task payload n =
     \<lparr>objectInfo = scenario_object payload n, approximateMemSize = 0,
      storageParams = \<lparr>MaxSegmentSize = 0, RedundantDataChunkNum = 0,
                       RedundantParityChunkNum = 0\<rparr>,
      segmentPieceNumber = 0, redundancyNumber = 0,
      spMap = Map.empty, approvalResponseMap = Map.empty, sortedSpEndpoints = []\<rparr>"

definition params_4_2 :: Params where
  "params_4_2 = \<lparr>MaxSegmentSize = 1048576, RedundantDataChunkNum = 4, RedundantParityChunkNum = 2\<rparr>"

definition params_1_0 :: Params where
  "params_1_0 = \<lparr>MaxSegmentSize = 1048576, RedundantDataChunkNum = 1, RedundantParityChunkNum = 0\<rparr>"

text \<open>
  The task as \<open>init\<close> leaves it in a scenario: \<open>n\<close> shards, one segment, the given pool
  and memory estimate.
\<close>

definition scenario_ready ::
  "Params \<Rightarrow> 64 word \<Rightarrow> int \<Rightarrow> string list \<Rightarrow> int \<Rightarrow> replicateObjectTask" where
  "scenario_ready p payload n endpoints mem =
     \<lparr>objectInfo = scenario_object payload (nat n + 1), approximateMemSize = mem,
      storageParams = p, segmentPieceNumber = 1, redundancyNumber = n,
      spMap = map_of (map (\<lambda>e. (e, scenario_sp e)) endpoints),
      approvalResponseMap = map_of (map (\<lambda>e. (e, e)) endpoints),
      sortedSpEndpoints = endpoints\<rparr>"

section \<open>Predicates used in the statements\<close>

fun is_reserve :: "event \<Rightarrow> bool" where
  "is_reserve (EvReserveMemory n) = True"
| "is_reserve e = False"

fun is_release :: "event \<Rightarrow> bool" where
  "is_release (EvReleaseMemory n) = True"
| "is_release e = False"

fun is_approval :: "event \<Rightarrow> bool" where
  "is_approval (EvGetApproval a b c) = True"
| "is_approval e = False"

fun is_seal :: "event \<Rightarrow> bool" where
  "is_seal (EvSealObjectOnChain m) = True"
| "is_seal e = False"

text \<open>The calls made inside a fan-out round.\<close>

fun is_round_event :: "event \<Rightarrow> bool" where
  "is_round_event (EvReplicate e i) = True"
| "is_round_event (EvSetObjectInfo i oi) = True"
| "is_round_event (EvCacheAdd i p) = True"
| "is_round_event e = False"

fun is_send :: "pevent \<Rightarrow> bool" where
  "is_send (SendPieceSize n) = True"
| "is_send e = False"

text \<open>The fields of the task that \<open>execute\<close> only reads.\<close>

definition same_static :: "replicateObjectTask \<Rightarrow> replicateObjectTask \<Rightarrow> bool" where
  "same_static t t' \<longleftrightarrow>
     approximateMemSize t' = approximateMemSize t \<and>
     redundancyNumber t' = redundancyNumber t \<and>
     segmentPieceNumber t' = segmentPieceNumber t \<and>
     storageParams t' = storageParams t \<and>
     Id_Uint64 (objectInfo t') = Id_Uint64 (objectInfo t) \<and>
     Checksums (objectInfo t') = Checksums (objectInfo t)"

text \<open>
  The candidate pool as \<open>init\<close> leaves it when \<open>SortKeys\<close> lists the keys of the approval
  map, each once.
\<close>

definition pool_ok :: "replicateObjectTask \<Rightarrow> bool" where
  "pool_ok t \<longleftrightarrow>
     dom (approvalResponseMap t) = set (sortedSpEndpoints t) \<and> distinct (sortedSpEndpoints t)"

text \<open>
  The size that the first segment yields when it is fetched and, for an erasure-coded
  object, encoded into at least one shard; \<open>None\<close> when there is no segment or the first
  fetch or encoding fails.
\<close>

definition first_piece_size :: "env \<Rightarrow> replicateObjectTask \<Rightarrow> int option" where
  "first_piece_size env t =
     (if segmentPieceNumber t \<le> 0 then None
      else
        (case pieceStore_GetPiece env
                (EncodeSegmentPieceKey env (Id_Uint64 (objectInfo t)) 0) 0 0 of
           Inl err \<Rightarrow> None
         | Inr segmentPieceData \<Rightarrow>
             if RedundancyType (objectInfo t) = REDUNDANCY_EC_TYPE then
               (case EncodeRawSegment env segmentPieceData
                       (uint (RedundantDataChunkNum (storageParams t)))
                       (uint (RedundantParityChunkNum (storageParams t))) of
                  Inl err \<Rightarrow> None
                | Inr ecPieceData \<Rightarrow>
                    if ecPieceData = [] then None
                    else Some (int (length (ecPieceData ! 0))))
             else Some (int (length segmentPieceData))))"

section \<open>Properties of the task queue\<close>

subsection \<open>The retire loop of Push\<close>

lemma delete_absent: "indexer t (Key task) = None \<Longrightarrow> delete task t = t"
  by (simp add: delete_def)

lemma Push_retire_absent:
  "indexer t (Key task) = None \<Longrightarrow>
   Push_retire gc task xs (t, clear) = (t, clear \<or> (\<exists>x\<in>set xs. gc x))"
  by (induction xs arbitrary: clear) (auto simp: delete_absent)

text \<open>
  Whenever a full queue holds a task the retire predicate accepts, a push with a fresh
  key is admitted and nothing is removed: the queue grows past its capacity.
\<close>

lemma Push_full_retire_removes_nothing:
  "indexer t (Key task) = None \<Longrightarrow> exceed t \<Longrightarrow> gcFunc t = Some gc \<Longrightarrow>
   x \<in> set (tasks t) \<Longrightarrow> gc x \<Longrightarrow> Push task t = (None, add task t)"
  by (auto simp: Push_def Push_retire_absent)

lemma Push_full_no_retire:
  "indexer t (Key task) = None \<Longrightarrow> exceed t \<Longrightarrow> gcFunc t = Some gc \<Longrightarrow>
   \<forall>x\<in>set (tasks t). \<not> gc x \<Longrightarrow> Push task t = (Some ErrQueueExceed, t)"
  by (auto simp: Push_def Push_retire_absent)

text \<open>
  Claim C1.  The claim: on a full queue with a retire strategy, a push with a fresh key
  removes exactly the present tasks the predicate accepts and then admits the new
  task; with capacity 2 holding A and B and a predicate true only for A, pushing C
  leaves B and C.  The code at that input: the loop calls \<open>delete\<close> on the pushed task C,
  whose key is not indexed, so nothing is removed; C is appended, and the queue holds
  A, B and C, three tasks under capacity 2.
\<close>

theorem Push_retire_keeps_retired_task:
  "(let A = \<lparr>Key = ''A'', EstimateLimit = (1::nat)\<rparr>;
        B = \<lparr>Key = ''B'', EstimateLimit = (1::nat)\<rparr>;
        C = \<lparr>Key = ''C'', EstimateLimit = (1::nat)\<rparr>;
        q0 = SetRetireTaskStrategy (Some (\<lambda>x. Key x = ''A'')) (NewGfSpTQueueWithLimit ''q'' 2);
        q2 = snd (Push B (snd (Push A q0)));
        q3 = snd (Push C q2)
    in tasks q2 = [A, B] \<and> exceed q2 \<and> fst (Push C q2) = None \<and>
       tasks q3 = [A, B, C] \<and> Has ''A'' q3 \<and> Len q3 = 3 \<and> Cap q3 = 2)"
  by (simp add: Push_def exceed_def add_def delete_def Has_def Len_def Cap_def
      SetRetireTaskStrategy_def NewGfSpTQueueWithLimit_def)

subsection \<open>The two halves of invariant I3\<close>

lemma len_agree_New: "len_agree (NewGfSpTQueueWithLimit nm c)"
  by (simp add: len_agree_def NewGfSpTQueueWithLimit_def)

lemma len_agree_add: "len_agree t \<Longrightarrow> indexer t (Key task) = None \<Longrightarrow> len_agree (add task t)"
  by (auto simp: len_agree_def add_def Let_def domIff)

lemma len_agree_delete: "len_agree t \<Longrightarrow> len_agree (delete task t)"
  by (auto simp: len_agree_def delete_def Let_def domIff split: option.splits)

lemma len_agree_Push: "len_agree t \<Longrightarrow> len_agree (snd (Push task t))"
  by (auto simp: Push_def Push_retire_absent len_agree_add split: option.splits)

lemma len_agree_PopByKey: "len_agree t \<Longrightarrow> len_agree (snd (PopByKey k t))"
  by (auto simp: PopByKey_def Let_def len_agree_delete split: option.splits)

lemma len_agree_PopByLimit: "len_agree t \<Longrightarrow> len_agree (snd (PopByLimit nl l t))"
  by (auto simp: PopByLimit_def Let_def len_agree_delete split: option.splits prod.splits)

text \<open>
  The first half of I3 does hold after every sequence of operations: the slice and the
  map always have the same number of entries.
\<close>

lemma len_agree_run_queue_ops: "len_agree t \<Longrightarrow> len_agree (run_queue_ops nl ops t)"
proof (induction ops arbitrary: t)
  case Nil
  then show ?case by simp
next
  case (Cons x xs)
  have "len_agree (apply_queue_op nl x t)"
    using Cons.prems
    by (cases x) (simp_all add: len_agree_Push len_agree_PopByKey len_agree_PopByLimit)
  then show ?case using Cons.IH by simp
qed

text \<open>Under I3 the task in slot \<open>i\<close> is indexed at \<open>i\<close>, so deleting it removes that slot.\<close>

lemma I3_index_of:
  assumes "I3 t" and "i < length (tasks t)"
  shows "indexer t (Key (tasks t ! i)) = Some i"
proof -
  let ?D = "dom (indexer t)" and ?f = "\<lambda>k. the (indexer t k)"
  from assms(1) have card: "length (tasks t) = card ?D"
    and pt: "\<And>k j. indexer t k = Some j \<Longrightarrow> j < length (tasks t) \<and> Key (tasks t ! j) = k"
    by (auto simp: I3_def len_agree_def)
  have inj: "inj_on ?f ?D"
  proof (rule inj_onI)
    fix a b assume "a \<in> ?D" "b \<in> ?D" "?f a = ?f b"
    then show "a = b" using pt by (metis domD option.sel)
  qed
  have sub: "?f ` ?D \<subseteq> {..<length (tasks t)}"
    using pt by (auto simp: domIff)
  have "card (?f ` ?D) = card {..<length (tasks t)}"
    using inj card by (simp add: card_image)
  with sub have "?f ` ?D = {..<length (tasks t)}"
    by (simp add: card_subset_eq)
  with assms(2) obtain k where "k \<in> ?D" "?f k = i" by (metis imageE lessThan_iff)
  then have "indexer t k = Some i" by auto
  with pt [OF this] show ?thesis by simp
qed

lemma I3_delete_at:
  "I3 t \<Longrightarrow> i < length (tasks t) \<Longrightarrow>
   tasks (delete (tasks t ! i) t) = take i (tasks t) @ drop (Suc i) (tasks t)"
  by (simp add: delete_def I3_index_of)

text \<open>
  Claim C2.  The claim: after every sequence of Push, PopByKey and PopByLimit from the
  empty queue, the slice and the map have equal length and every indexed key \<open>k\<close>
  satisfies \<open>tasks[indexer[k]].Key() == k\<close>.  The code after Push A, Push B, PopByKey A:
  the slice is \<open>[B]\<close>, but \<open>delete\<close> left B indexed at 1, past the end of the slice; B is
  reported present, and PopByKey B takes the out-of-bounds branch and returns nil.
\<close>

theorem delete_leaves_stale_index:
  "(let A = \<lparr>Key = ''A'', EstimateLimit = (1::nat)\<rparr>;
        B = \<lparr>Key = ''B'', EstimateLimit = (1::nat)\<rparr>;
        q2 = snd (Push B (snd (Push A (NewGfSpTQueueWithLimit ''q'' 2))));
        q = snd (PopByKey ''A'' q2)
    in fst (PopByKey ''A'' q2) = Some A \<and> tasks q = [B] \<and> indexer q ''B'' = Some 1 \<and>
       Has ''B'' q \<and> PopByKey ''B'' q = (None, q))"
  by (simp add: Push_def exceed_def add_def delete_def Has_def PopByKey_def
      NewGfSpTQueueWithLimit_def)

text \<open>In terms of the invariant: that queue violates I3, although its two lengths agree.\<close>

lemma I3_broken_by_PopByKey:
  "\<not> I3 (snd (PopByKey ''A''
       (snd (Push \<lparr>Key = ''B'', EstimateLimit = (1::nat)\<rparr>
          (snd (Push \<lparr>Key = ''A'', EstimateLimit = (1::nat)\<rparr>
             (NewGfSpTQueueWithLimit ''q'' 2)))))))"
proof
  let ?q = "snd (PopByKey ''A''
       (snd (Push \<lparr>Key = ''B'', EstimateLimit = (1::nat)\<rparr>
          (snd (Push \<lparr>Key = ''A'', EstimateLimit = (1::nat)\<rparr>
             (NewGfSpTQueueWithLimit ''q'' 2))))))"
  assume "I3 ?q"
  moreover have "indexer ?q ''B'' = Some 1" and "length (tasks ?q) = 1"
    by (simp_all add: Push_def exceed_def add_def delete_def PopByKey_def
        NewGfSpTQueueWithLimit_def)
  ultimately show False by (auto simp: I3_def)
qed

subsection \<open>PopByLimit against TopByLimit\<close>

lemma PopByLimit_loop_fst: "fst (PopByLimit_loop nl l t n v) = TopByLimit_loop nl l t n"
  by (induction n arbitrary: v) (auto simp: Let_def split: option.splits)

lemma PopByLimit_loop_snd_Some:
  "TopByLimit_loop nl l t n = Some x \<Longrightarrow> snd (PopByLimit_loop nl l t n v) = Some x"
  by (induction n arbitrary: v) (auto simp: Let_def split: option.splits if_splits)

lemma PopByLimit_loop_snd_None:
  "TopByLimit_loop nl l t n = None \<Longrightarrow>
   snd (PopByLimit_loop nl l t n v) = (if n = 0 then v else Some (tasks t ! 0))"
  by (induction n arbitrary: v) (auto simp: Let_def split: option.splits if_splits)

text \<open>The value returned is always the selection of TopByLimit.\<close>

lemma PopByLimit_fst: "fst (PopByLimit nl l t) = TopByLimit nl l t"
proof (cases "length (tasks t) = 0")
  case True
  then show ?thesis by (simp add: PopByLimit_def TopByLimit_def)
next
  case False
  then show ?thesis
    using PopByLimit_loop_fst [of nl l t "length (tasks t)" None]
    by (auto simp: PopByLimit_def TopByLimit_def split: prod.splits)
qed

text \<open>When a task is eligible, the deferred function deletes the task returned.\<close>

lemma PopByLimit_eligible:
  assumes top: "TopByLimit nl l t = Some x"
  shows "PopByLimit nl l t = (Some x, delete x t)"
proof -
  from top have ne: "length (tasks t) \<noteq> 0"
    and loop: "TopByLimit_loop nl l t (length (tasks t)) = Some x"
    by (auto simp: TopByLimit_def split: if_splits)
  have "PopByLimit_loop nl l t (length (tasks t)) None = (Some x, Some x)"
    using PopByLimit_loop_fst [of nl l t "length (tasks t)" None]
      PopByLimit_loop_snd_Some [OF loop, of None] loop
    by (simp add: prod_eq_iff)
  then show ?thesis using ne by (simp add: PopByLimit_def)
qed

text \<open>
  When no task is eligible, the variable \<open>task\<close> still holds the last slot the loop
  visited, \<open>t.tasks[0]\<close>, and the deferred function deletes it.
\<close>

lemma PopByLimit_none_eligible:
  assumes ne: "tasks t \<noteq> []" and top: "TopByLimit nl l t = None"
  shows "PopByLimit nl l t = (None, delete (tasks t ! 0) t)"
proof -
  from ne top have loop: "TopByLimit_loop nl l t (length (tasks t)) = None"
    by (auto simp: TopByLimit_def split: if_splits)
  have "PopByLimit_loop nl l t (length (tasks t)) None = (None, Some (tasks t ! 0))"
    using PopByLimit_loop_fst [of nl l t "length (tasks t)" None]
      PopByLimit_loop_snd_None [OF loop, of None] loop ne
    by (simp add: prod_eq_iff)
  then show ?thesis using ne by (simp add: PopByLimit_def)
qed

lemma TopByLimit_loop_index:
  "TopByLimit_loop nl l t n = Some x \<Longrightarrow> \<exists>i<n. x = tasks t ! i"
  by (induction n) (auto simp: Let_def less_Suc_eq split: option.splits if_splits)

text \<open>
  On a queue that satisfies I3, an eligible selection is popped as the claim has it:
  the task returned is TopByLimit's, and exactly its slot leaves the slice.
\<close>

lemma PopByLimit_eligible_I3:
  assumes "I3 t" and "TopByLimit nl l t = Some x"
  shows "fst (PopByLimit nl l t) = Some x \<and>
         (\<exists>i<length (tasks t). x = tasks t ! i \<and>
            tasks (snd (PopByLimit nl l t)) = take i (tasks t) @ drop (Suc i) (tasks t))"
proof -
  from assms(2) have "TopByLimit_loop nl l t (length (tasks t)) = Some x"
    by (auto simp: TopByLimit_def split: if_splits)
  from TopByLimit_loop_index [OF this]
  obtain i where "i < length (tasks t)" "x = tasks t ! i" by blast
  with I3_delete_at [OF assms(1), of i] PopByLimit_eligible [OF assms(2)]
  show ?thesis by auto
qed

lemma PopByLimit_none_eligible_I3:
  "I3 t \<Longrightarrow> tasks t \<noteq> [] \<Longrightarrow> TopByLimit nl l t = None \<Longrightarrow>
   tasks (snd (PopByLimit nl l t)) = tl (tasks t)"
  using I3_delete_at [of t 0] by (simp add: PopByLimit_none_eligible drop_Suc)

text \<open>
  Claim C3.  The claim: PopByLimit selects as TopByLimit does and removes only the chosen
  task; when no task is eligible it returns nil and leaves the queue unchanged.  The
  code on a queue holding the single task A, whose estimate 1 exceeds the limit 0:
  TopByLimit and PopByLimit both return nil, and PopByLimit removes A all the same.
\<close>

theorem PopByLimit_removes_ineligible_task:
  "(let A = \<lparr>Key = ''A'', EstimateLimit = (1::nat)\<rparr>;
        q1 = snd (Push A (NewGfSpTQueueWithLimit ''q'' 2));
        NotLess = (\<lambda>limit est. est \<le> limit)
    in tasks q1 = [A] \<and> TopByLimit NotLess 0 q1 = None \<and>
       fst (PopByLimit NotLess 0 q1) = None \<and>
       tasks (snd (PopByLimit NotLess 0 q1)) = [] \<and>
       \<not> Has ''A'' (snd (PopByLimit NotLess 0 q1)))"
  by (simp add: Push_def exceed_def add_def delete_def Has_def PopByLimit_def TopByLimit_def
      NewGfSpTQueueWithLimit_def)

section \<open>Properties of the float64 arithmetic\<close>

lemma bitlen_bounds_rat:
  assumes "0 < a"
  shows "(2::rat) powi (bitlen a - 1) \<le> of_int a" and "of_int a < (2::rat) powi (bitlen a)"
proof -
  from bitlen_bounds [OF assms]
  have lo: "2 ^ nat (bitlen a - 1) \<le> a" and hi: "a < 2 ^ nat (bitlen a)" by auto
  have ge1: "1 \<le> bitlen a" using assms by (simp add: bitlen_alt_def)
  have "(of_int (2 ^ nat (bitlen a - 1)) :: rat) \<le> of_int a"
    using lo by (simp only: of_int_le_iff)
  then show "(2::rat) powi (bitlen a - 1) \<le> of_int a"
    using ge1 by (simp add: power_int_def)
  have "(of_int a :: rat) < of_int (2 ^ nat (bitlen a))"
    using hi by (simp only: of_int_less_iff)
  then show "of_int a < (2::rat) powi (bitlen a)"
    using ge1 by (simp add: power_int_def)
qed

lemma ilog2_bounds:
  assumes "0 < r"
  shows "2 powi (ilog2 r) \<le> r \<and> r < 2 powi (ilog2 r + 1)"
proof -
  obtain a b where q: "quotient_of r = (a, b)" by (cases "quotient_of r")
  then have b: "0 < b" and r: "r = of_int a / of_int b"
    by (simp_all add: quotient_of_denom_pos quotient_of_div)
  from assms r b have a: "0 < a"
    by (simp add: zero_less_divide_iff)
  let ?d = "bitlen a - bitlen b"
  have il: "ilog2 r = (if 2 powi ?d \<le> r then ?d else ?d - 1)"
    by (simp add: ilog2_def q Let_def)
  note ba = bitlen_bounds_rat [OF a] and bb = bitlen_bounds_rat [OF b]
  have bpos: "(0::rat) < of_int b" using b by simp
  have up: "r < 2 powi (?d + 1)"
  proof -
    have "r < 2 powi (bitlen a) / of_int b"
      unfolding r using ba(2) bpos by (simp add: divide_strict_right_mono)
    also have "\<dots> \<le> 2 powi (bitlen a) / 2 powi (bitlen b - 1)"
      using bb(1) by (simp add: frac_le)
    also have "\<dots> = 2 powi (bitlen a - (bitlen b - 1))"
      by (rule power_int_diff [symmetric]) simp
    also have "bitlen a - (bitlen b - 1) = ?d + 1" by simp
    finally show ?thesis .
  qed
  have lo: "2 powi (?d - 1) \<le> r"
  proof -
    have "(2::rat) powi (bitlen a - 1 - bitlen b) = 2 powi (bitlen a - 1) / 2 powi (bitlen b)"
      by (rule power_int_diff) simp
    moreover have "bitlen a - 1 - bitlen b = ?d - 1" by simp
    ultimately have "(2::rat) powi (?d - 1) = 2 powi (bitlen a - 1) / 2 powi (bitlen b)"
      by simp
    also have "\<dots> \<le> of_int a / 2 powi (bitlen b)"
      using ba(1) by (simp add: divide_right_mono)
    also have "\<dots> \<le> of_int a / of_int b"
      using bb(2) a bpos by (simp add: frac_le)
    finally show ?thesis by (simp add: r)
  qed
  show ?thesis
  proof (cases "2 powi ?d \<le> r")
    case True
    then show ?thesis using up il by simp
  next
    case False
    then show ?thesis using lo il by simp
  qed
qed

lemma round_half_even_of_int [simp]: "round_half_even (of_int n) = n"
  by (simp add: round_half_even_def)

lemma power_int_less_cancel:
  assumes "(2::rat) powi a < 2 powi b" shows "a < b"
proof (rule ccontr)
  assume "\<not> a < b"
  then have "(2::rat) powi b \<le> 2 powi a" by (intro power_int_increasing) simp_all
  with assms show False by simp
qed

lemma f64_round_exact_pos:
  assumes m: "0 < m" "m < 2 ^ 53" and j: "j \<le> 1022"
  shows "f64_round (of_nat m / 2 ^ j) = Fin (of_nat m / 2 ^ j)"
proof -
  let ?r = "of_nat m / 2 ^ j :: rat"
  have rpos: "0 < ?r" using m by simp
  let ?e = "ilog2 ?r"
  from ilog2_bounds [OF rpos] have lo: "2 powi ?e \<le> ?r" and hi: "?r < 2 powi (?e + 1)" by auto
  have r_alt: "?r = of_nat m * 2 powi (- int j)"
    by (simp add: power_int_minus field_simps)
  have "(2::rat) powi (- int j) \<le> ?r"
    using m by (simp add: r_alt)
  then have "(2::rat) powi (- int j) < 2 powi (?e + 1)" using hi by (rule le_less_trans)
  then have e_lo: "- int j \<le> ?e" using power_int_less_cancel by fastforce
  have m53: "(of_nat m :: rat) < 2 powi 53"
  proof -
    have "(of_nat m :: rat) < of_nat (2 ^ 53)" using m(2) by (simp only: of_nat_less_iff)
    also have "(of_nat (2 ^ 53) :: rat) = 2 powi 53" by (simp add: power_int_def)
    finally show ?thesis .
  qed
  have "?r < 2 powi 53 * 2 powi (- int j)"
    unfolding r_alt using m53 by (rule mult_strict_right_mono) simp
  also have "\<dots> = 2 powi (53 + - int j)"
    by (rule power_int_add [symmetric]) simp
  also have "53 + - int j = 53 - int j" by simp
  finally have "?r < 2 powi (53 - int j)" .
  with lo have "(2::rat) powi ?e < 2 powi (53 - int j)" by (rule le_less_trans)
  then have e_hi: "?e + int j \<le> 52" using power_int_less_cancel by fastforce
  have emax: "max ?e (- 1022) = ?e" using e_lo j by simp
  define k where "k = nat (52 - ?e - int j)"
  have k: "int k = 52 - ?e - int j" using e_hi by (simp add: k_def)
  have q: "?r / 2 powi (?e - 52) = of_int (int m * 2 ^ k)"
  proof -
    have "?r / 2 powi (?e - 52) = of_nat m * (2 powi (- int j) / 2 powi (?e - 52))"
      by (simp add: r_alt)
    also have "2 powi (- int j) / (2::rat) powi (?e - 52) = 2 powi (- int j - (?e - 52))"
      by (rule power_int_diff [symmetric]) simp
    also have "- int j - (?e - 52) = int k" using k by simp
    finally show ?thesis by simp
  qed
  have v: "of_int (round_half_even (?r / 2 powi (?e - 52))) * 2 powi (?e - 52) = ?r"
    unfolding q round_half_even_of_int unfolding q [symmetric] by simp
  have "?r \<le> of_nat m" using m by (simp add: field_simps mult_le_cancel_left1)
  also note m53
  also have "(2::rat) powi 53 \<le> 2 powi 1024" by (intro power_int_increasing) simp_all
  finally have small: "(2 powi 1024 \<le> ?r) = False" by simp
  have ne: "(?r = 0) = False" using m by simp
  show ?thesis
    by (simp only: f64_round_def Let_def emax v ne small if_False)
qed

text \<open>A value with at most 53 significant bits and a moderate exponent is not changed by rounding.\<close>

lemma f64_round_exact:
  assumes "m < 2 ^ 53" and "j \<le> 1022"
  shows "f64_round (of_nat m / 2 ^ j) = Fin (of_nat m / 2 ^ j)"
proof (cases "m = 0")
  case True
  then show ?thesis by (simp add: f64_round_def)
next
  case False
  then show ?thesis using assms by (intro f64_round_exact_pos) simp_all
qed

lemma float64_of_nat_exact: "n < 2 ^ 53 \<Longrightarrow> float64_of_nat n = Fin (of_nat n)"
  using f64_round_exact [of n 0] by (simp add: float64_of_nat_def)

lemma memEstimate_exact:
  assumes k: "unat k = 2 ^ j" and rn: "0 \<le> rn" "rn < 2 ^ 32"
    and bound: "sz * (nat rn + 2 ^ j) < 2 ^ 53"
  shows "memEstimate impl sz rn k = int ((sz * (nat rn + 2 ^ j)) div 2 ^ j)"
proof -
  have j: "j < 32"
  proof (rule ccontr)
    assume "\<not> j < 32"
    then have "(2::nat) ^ 32 \<le> 2 ^ j" by (intro power_increasing) simp_all
    moreover have "unat k < 2 ^ 32" using unsigned_less [of k] by simp
    ultimately show False using k by simp
  qed
  have rn53: "nat rn < 2 ^ 53"
  proof -
    have "nat rn < 2 ^ 32" using rn by (simp add: nat_less_iff)
    also have "(2::nat) ^ 32 < 2 ^ 53" by (intro power_strict_increasing) simp_all
    finally show ?thesis .
  qed
  have k53: "(2::nat) ^ j < 2 ^ 53" using j by (intro power_strict_increasing) simp_all
  have sum53: "nat rn + 2 ^ j < 2 ^ 53"
  proof -
    have "nat rn < 2 ^ 32" using rn by (simp add: nat_less_iff)
    moreover have "(2::nat) ^ j \<le> 2 ^ 31" using j by (intro power_increasing) simp_all
    ultimately have "nat rn + 2 ^ j < 2 ^ 32 + 2 ^ 31" by simp
    also have "\<dots> < (2::nat) ^ 53" by simp
    finally show ?thesis .
  qed
  have sz53: "sz < 2 ^ 53"
  proof -
    have "(1::nat) \<le> 2 ^ j" by simp
    then have "1 \<le> nat rn + 2 ^ j" by (rule trans_le_add2)
    then have "sz * 1 \<le> sz * (nat rn + 2 ^ j)" by (rule mult_le_mono2)
    then have "sz \<le> sz * (nat rn + 2 ^ j)" by (simp only: mult_1_right)
    then show ?thesis using bound by (rule le_less_trans)
  qed
  have j1022: "j \<le> 1022" using j by simp
  have f_rn: "float64_of_nat (nat rn) = Fin (of_nat (nat rn))"
    using rn53 by (rule float64_of_nat_exact)
  have f_k: "float64_of_nat (unat k) = Fin (2 ^ j)"
    using float64_of_nat_exact [OF k53] k by simp
  have f_sz: "float64_of_nat sz = Fin (of_nat sz)"
    using sz53 by (rule float64_of_nat_exact)
  have q: "f64_div (Fin (of_nat (nat rn))) (Fin (2 ^ j)) = Fin (of_nat (nat rn) / 2 ^ j)"
    using f64_round_exact [OF rn53 j1022] by simp
  have "of_nat (nat rn) / 2 ^ j + (1::rat) = of_nat (nat rn + 2 ^ j) / 2 ^ j"
    by (simp add: field_simps)
  then have a: "f64_add (Fin (of_nat (nat rn) / 2 ^ j)) (Fin 1) = Fin (of_nat (nat rn + 2 ^ j) / 2 ^ j)"
    using f64_round_exact [OF sum53 j1022] by simp
  have "(of_nat sz :: rat) * (of_nat (nat rn + 2 ^ j) / 2 ^ j) = of_nat (sz * (nat rn + 2 ^ j)) / 2 ^ j"
    by simp
  then have p: "f64_mul (Fin (of_nat sz)) (Fin (of_nat (nat rn + 2 ^ j) / 2 ^ j))
                = Fin (of_nat (sz * (nat rn + 2 ^ j)) / 2 ^ j)"
    using f64_round_exact [OF bound j1022] by simp
  have fl: "\<lfloor>(of_nat (sz * (nat rn + 2 ^ j)) :: rat) / 2 ^ j\<rfloor> = int ((sz * (nat rn + 2 ^ j)) div 2 ^ j)"
    using floor_divide_of_nat_eq [of "sz * (nat rn + 2 ^ j)" "2 ^ j", where ?'a = rat] by simp
  have small: "int ((sz * (nat rn + 2 ^ j)) div 2 ^ j) < 2 ^ 63"
  proof -
    have "(sz * (nat rn + 2 ^ j)) div 2 ^ j \<le> sz * (nat rn + 2 ^ j)" by (rule div_le_dividend)
    also note bound
    also have "(2::nat) ^ 53 < 2 ^ 63" by (intro power_strict_increasing) simp_all
    finally have "(sz * (nat rn + 2 ^ j)) div 2 ^ j < 2 ^ 63" .
    then show ?thesis by (metis of_nat_less_numeral_power_cancel_iff)
  qed
  show ?thesis
    unfolding memEstimate_def f_rn f_k f_sz q a p int_of_float64_def float64.case fl
    using small by simp
qed

section \<open>Properties of execute\<close>

subsection \<open>What a run leaves untouched, and the calls of a round\<close>

lemma same_static_refl [simp]: "same_static t t"
  by (simp add: same_static_def)

lemma same_static_trans: "same_static a b \<Longrightarrow> same_static b c \<Longrightarrow> same_static a c"
  by (simp add: same_static_def)

lemma pickSp_static: "pickSp t = Ok (x, t') \<Longrightarrow> same_static t t' \<and> objectInfo t' = objectInfo t"
  by (auto simp: pickSp_def same_static_def split: if_splits list.splits)

lemma replicate_shard_static:
  assumes "replicate_shard env sg pevs i s = Ok s'"
  shows "same_static (tsk s) (tsk s') \<and>
         (\<exists>xs. events s' = events s @ xs \<and> list_all is_round_event xs)"
proof (cases "pickSp (tsk s)")
  case Panic
  with assms show ?thesis by (simp add: replicate_shard_def)
next
  case (Ok p)
  obtain x t' where p: "p = (x, t')" by (cases p)
  from pickSp_static [of "tsk s" x t'] Ok p
  have st: "same_static (tsk s) t'" by simp
  show ?thesis
  proof (cases x)
    case (Inl e)
    with assms Ok p st show ?thesis by (auto simp: replicate_shard_def)
  next
    case (Inr sa)
    obtain sp0 ap0 where sa: "sa = (sp0, ap0)" by (cases sa)
    show ?thesis
      using assms Ok p st Inr sa
      by (auto simp: replicate_shard_def Let_def same_static_def split: if_splits sum.splits)
  qed
qed

lemma fan_out_static:
  "fan_out env sg pevs ks s = Ok s' \<Longrightarrow>
   same_static (tsk s) (tsk s') \<and> (\<exists>xs. events s' = events s @ xs \<and> list_all is_round_event xs)"
proof (induction ks arbitrary: s)
  case Nil
  then show ?case by simp
next
  case (Cons k ks)
  then obtain s1 where s1: "replicate_shard env sg pevs k s = Ok s1"
    and rest: "fan_out env sg pevs ks s1 = Ok s'"
    by (auto split: result.splits)
  from replicate_shard_static [OF s1] Cons.IH [OF rest]
  show ?case by (auto intro: same_static_trans)
qed

lemma execute_loop_static:
  "execute_loop fuel env rnd s = Some (Ok (ex, s')) \<Longrightarrow>
   same_static (tsk s) (tsk s') \<and>
   (\<exists>xs. events s' = events s @ xs \<and> list_all is_round_event xs) \<and>
   (ex = Break \<longrightarrow> isAllSucceed (tsk s') (succeedIndexMap s'))"
proof (induction fuel arbitrary: rnd s)
  case 0
  then show ?case by simp
next
  case (Suc fuel)
  show ?case
  proof (cases "isAllSucceed (tsk s) (succeedIndexMap s)")
    case True
    with Suc.prems show ?thesis by auto
  next
    case False
    show ?thesis
    proof (cases "newStreamReaderGroup (tsk s) (succeedIndexMap s)")
      case (Inl e)
      with False Suc.prems show ?thesis by auto
    next
      case (Inr sg)
      show ?thesis
      proof (cases "length (streamReaderMap sg) > length (sortedSpEndpoints (tsk s))")
        case True
        with False Inr Suc.prems show ?thesis by auto
      next
        case nexh: False
        obtain sg' pevs where pr: "produceStreamPieceData env (tsk s) sg = (sg', pevs)"
          by (cases "produceStreamPieceData env (tsk s) sg")
        from Suc.prems False Inr nexh pr obtain s1 where
          fo: "fan_out env sg' pevs (sort_key (sched env rnd) (streamReaderMap sg')) s = Ok s1"
          and rec: "execute_loop fuel env (Suc rnd) s1 = Some (Ok (ex, s'))"
          by (auto split: if_splits result.splits)
        from fan_out_static [OF fo] Suc.IH [OF rec]
        show ?thesis by (auto intro: same_static_trans)
      qed
    qed
  qed
qed

subsection \<open>Memory is reserved once by init and released once by execute\<close>

lemma filter_release_round: "list_all is_round_event xs \<Longrightarrow> filter is_release xs = []"
  by (induction xs) (auto elim: is_round_event.elims)

lemma execute_start_events:
  "events (execute_start env t) =
     [EvUpdateJobState (Id_Uint64 (objectInfo t)) JOB_STATE_REPLICATE_OBJECT_DOING]"
  by (simp add: execute_start_def Let_def)

lemma execute_start_static: "same_static t (tsk (execute_start env t))"
  by (simp add: execute_start_def Let_def same_static_def)

lemma execute_exit_release:
  "filter is_release (events s) = [] \<Longrightarrow>
   filter is_release (execute_exit env ex s) = [EvReleaseMemory (approximateMemSize (tsk s))]"
  by (cases ex) (auto simp: execute_exit_def Let_def split: option.splits)

lemma execute_release_once:
  assumes "execute fuel env t = Some (Ok (evs, t'))"
  shows "filter is_release evs = [EvReleaseMemory (approximateMemSize t)]"
proof -
  from assms obtain ex s where
    loop: "execute_loop fuel env 0 (execute_start env t) = Some (Ok (ex, s))"
    and evs: "evs = execute_exit env ex s"
    by (auto simp: execute_def split: option.splits result.splits)
  from execute_loop_static [OF loop] obtain xs where
    st: "same_static (tsk (execute_start env t)) (tsk s)"
    and ev: "events s = events (execute_start env t) @ xs" and rd: "list_all is_round_event xs"
    by auto
  have "filter is_release (events s) = []"
    using ev rd by (simp add: execute_start_events filter_release_round)
  then have "filter is_release evs = [EvReleaseMemory (approximateMemSize (tsk s))]"
    unfolding evs by (rule execute_exit_release)
  moreover have "approximateMemSize (tsk s) = approximateMemSize t"
    using st execute_start_static [of t env] by (simp add: same_static_def)
  ultimately show ?thesis by simp
qed

lemma init_reserve_once:
  assumes "init env t0 = (None, t, evs0)"
  shows "filter is_reserve evs0 = [EvReserveMemory (approximateMemSize t)]"
  using assms
  by (auto simp: init_def Let_def split: prod.splits option.splits if_splits)

subsection \<open>The exits of execute\<close>

lemma round_event_not_state: "list_all is_round_event xs \<Longrightarrow> EvUpdateJobState i st \<notin> set xs"
  by (induction xs) auto

lemma round_event_not_seal: "list_all is_round_event xs \<Longrightarrow> filter is_seal xs = []"
  by (induction xs) (auto elim: is_round_event.elims)

text \<open>
  The loop is left by \<open>break\<close> only when every shard has succeeded, so the branch after
  the loop that records the replicate error is never taken.
\<close>

lemma execute_never_records_replicate_error:
  assumes "execute fuel env t = Some (Ok (evs, t'))"
  shows "EvUpdateJobState i JOB_STATE_REPLICATE_OBJECT_ERROR \<notin> set evs"
proof -
  from assms obtain ex s where
    loop: "execute_loop fuel env 0 (execute_start env t) = Some (Ok (ex, s))"
    and evs: "evs = execute_exit env ex s"
    by (auto simp: execute_def split: option.splits result.splits)
  from execute_loop_static [OF loop] obtain xs where
    ev: "events s = events (execute_start env t) @ xs" and rd: "list_all is_round_event xs"
    and br: "ex = Break \<longrightarrow> isAllSucceed (tsk s) (succeedIndexMap s)"
    by auto
  have "EvUpdateJobState i JOB_STATE_REPLICATE_OBJECT_ERROR \<notin> set (events s)"
    using ev round_event_not_state [OF rd] by (simp add: execute_start_events)
  then show ?thesis
    using br unfolding evs
    by (cases ex) (auto simp: execute_exit_def Let_def split: option.splits)
qed

text \<open>A run that leaves the loop by \<open>return\<close> makes no call after the loop but the release.\<close>

lemma execute_loop_Return_exit:
  "execute_exit env Return s = events s @ [EvReleaseMemory (approximateMemSize (tsk s))]"
  by (simp add: execute_exit_def Let_def)

subsection \<open>The loop of execute comes to an end\<close>

lemma pickSp_pool:
  assumes "pool_ok t"
  shows "(sortedSpEndpoints t = [] \<and> pickSp t = Ok (Inl ErrExhaustedSP, t)) \<or>
         (\<exists>x t'. pickSp t = Ok (Inr x, t') \<and> pool_ok t' \<and>
                  sortedSpEndpoints t' = tl (sortedSpEndpoints t) \<and> sortedSpEndpoints t \<noteq> [])"
proof (cases "sortedSpEndpoints t")
  case Nil
  with assms have "approvalResponseMap t = Map.empty" by (simp add: pool_ok_def)
  with Nil show ?thesis by (simp add: pickSp_def)
next
  case (Cons e rest)
  with assms have ne: "approvalResponseMap t \<noteq> Map.empty"
    by (auto simp: pool_ok_def)
  have "pool_ok (t\<lparr>sortedSpEndpoints := rest, spMap := (spMap t)(e := None),
                   approvalResponseMap := (approvalResponseMap t)(e := None)\<rparr>)"
    using assms Cons by (auto simp: pool_ok_def)
  with ne Cons show ?thesis by (simp add: pickSp_def)
qed

lemma pool_ok_objectInfo [simp]: "pool_ok (t\<lparr>objectInfo := oi\<rparr>) = pool_ok t"
  by (simp add: pool_ok_def)

lemma replicate_shard_pool:
  assumes "pool_ok (tsk s)" and "replicate_shard env sg pevs i s = Ok s'"
  shows "pool_ok (tsk s') \<and>
         length (sortedSpEndpoints (tsk s')) = length (sortedSpEndpoints (tsk s)) - 1"
  using pickSp_pool [OF assms(1)]
proof (elim disjE conjE exE)
  assume "sortedSpEndpoints (tsk s) = []" "pickSp (tsk s) = Ok (Inl ErrExhaustedSP, tsk s)"
  with assms show ?thesis by (auto simp: replicate_shard_def)
next
  fix x t'
  assume p: "pickSp (tsk s) = Ok (Inr x, t')" and ok: "pool_ok t'"
    and tl: "sortedSpEndpoints t' = tl (sortedSpEndpoints (tsk s))"
  obtain sp0 ap0 where x: "x = (sp0, ap0)" by (cases x)
  from assms(2) p x ok tl show ?thesis
    by (auto simp: replicate_shard_def Let_def split: if_splits sum.splits)
qed

lemma fan_out_pool:
  "pool_ok (tsk s) \<Longrightarrow> fan_out env sg pevs ks s = Ok s' \<Longrightarrow>
   pool_ok (tsk s') \<and>
   length (sortedSpEndpoints (tsk s')) = length (sortedSpEndpoints (tsk s)) - length ks"
proof (induction ks arbitrary: s)
  case Nil
  then show ?case by simp
next
  case (Cons k ks)
  then obtain s1 where s1: "replicate_shard env sg pevs k s = Ok s1"
    and rest: "fan_out env sg pevs ks s1 = Ok s'"
    by (auto split: result.splits)
  from replicate_shard_pool [OF Cons.prems(1) s1] Cons.IH [OF _ rest]
  show ?case by auto
qed

lemma newStreamReaderGroup_idx_inv:
  "(b \<longrightarrow> m \<noteq> []) \<Longrightarrow> newStreamReaderGroup_idx ex idxs (m, b) = (m', b') \<Longrightarrow>
   (b' \<longrightarrow> m' \<noteq> [])"
proof (induction idxs arbitrary: m b)
  case Nil
  then show ?case by simp
next
  case (Cons a idxs)
  show ?case
  proof (cases "ex a = Some True")
    case True
    with Cons.prems Cons.IH [of b m] show ?thesis by simp
  next
    case False
    have "List.insert a m \<noteq> []" by (auto simp: List.insert_def)
    with False Cons.prems Cons.IH [of True "List.insert a m"] show ?thesis by simp
  qed
qed

lemma newStreamReaderGroup_seg_inv:
  "(b \<longrightarrow> m \<noteq> []) \<Longrightarrow> newStreamReaderGroup_seg ex segs idxs (m, b) = (m', b') \<Longrightarrow>
   (b' \<longrightarrow> m' \<noteq> [])"
proof (induction segs arbitrary: m b)
  case Nil
  then show ?case by simp
next
  case (Cons a segs)
  obtain m1 b1 where step: "newStreamReaderGroup_idx ex idxs (m, b) = (m1, b1)"
    by (cases "newStreamReaderGroup_idx ex idxs (m, b)")
  from newStreamReaderGroup_idx_inv [OF Cons.prems(1) step]
  have "b1 \<longrightarrow> m1 \<noteq> []" .
  from Cons.IH [OF this] Cons.prems(2) step show ?case by simp
qed

lemma newStreamReaderGroup_nonempty:
  "newStreamReaderGroup t ex = Inr sg \<Longrightarrow> streamReaderMap sg \<noteq> []"
  using newStreamReaderGroup_seg_inv
    [of False "[]" ex "[0..<nat (segmentPieceNumber t)]" "[0..<nat (redundancyNumber t)]"]
  by (auto simp: newStreamReaderGroup_def split: prod.splits if_splits)

lemma execute_loop_returns:
  "pool_ok (tsk s) \<Longrightarrow> length (sortedSpEndpoints (tsk s)) < fuel \<Longrightarrow>
   \<exists>res. execute_loop fuel env rnd s = Some res"
proof (induction fuel arbitrary: rnd s)
  case 0
  then show ?case by simp
next
  case (Suc fuel)
  show ?case
  proof (cases "isAllSucceed (tsk s) (succeedIndexMap s)")
    case True
    then show ?thesis by simp
  next
    case False
    show ?thesis
    proof (cases "newStreamReaderGroup (tsk s) (succeedIndexMap s)")
      case (Inl e)
      with False show ?thesis by simp
    next
      case (Inr sg)
      show ?thesis
      proof (cases "length (streamReaderMap sg) > length (sortedSpEndpoints (tsk s))")
        case True
        with False Inr show ?thesis by simp
      next
        case nexh: False
        obtain sg' pevs where pr: "produceStreamPieceData env (tsk s) sg = (sg', pevs)"
          by (cases "produceStreamPieceData env (tsk s) sg")
        then have keys: "streamReaderMap sg' = streamReaderMap sg"
          by (auto simp: produceStreamPieceData_def Let_def)
        let ?ks = "sort_key (sched env rnd) (streamReaderMap sg')"
        show ?thesis
        proof (cases "ProducerPanic \<in> set pevs")
          case True
          with False Inr nexh pr show ?thesis by simp
        next
          case np: False
          show ?thesis
          proof (cases "fan_out env sg' pevs ?ks s")
            case Panic
            with False Inr nexh pr np show ?thesis by simp
          next
            case (Ok s1)
            from fan_out_pool [OF Suc.prems(1) Ok]
            have ok1: "pool_ok (tsk s1)"
              and len: "length (sortedSpEndpoints (tsk s1)) =
                        length (sortedSpEndpoints (tsk s)) - length ?ks" by auto
            have "length ?ks = length (streamReaderMap sg)" using keys by simp
            moreover have "streamReaderMap sg \<noteq> []" using Inr by (rule newStreamReaderGroup_nonempty)
            ultimately have "length (sortedSpEndpoints (tsk s1)) < fuel"
              using len nexh Suc.prems(2) by (cases "streamReaderMap sg") auto
            from Suc.IH [OF ok1 this, of "Suc rnd"] False Inr nexh pr np Ok
            show ?thesis by simp
          qed
        qed
      qed
    qed
  qed
qed

lemma execute_returns:
  assumes "pool_ok t"
  shows "\<exists>res. execute (Suc (length (sortedSpEndpoints t))) env t = Some res"
proof -
  have "pool_ok (tsk (execute_start env t))"
    and "sortedSpEndpoints (tsk (execute_start env t)) = sortedSpEndpoints t"
    using assms by (simp_all add: execute_start_def Let_def pool_ok_def)
  with execute_loop_returns [of "execute_start env t" "Suc (length (sortedSpEndpoints t))" env 0]
  obtain res where "execute_loop (Suc (length (sortedSpEndpoints t))) env 0 (execute_start env t) = Some res"
    by auto
  then show ?thesis
    by (cases res) (auto simp: execute_def simp del: execute_loop.simps split: prod.splits)
qed

subsection \<open>What the producer sends on the piece-size channel\<close>

lemma write_shards_no_send: "filter is_send (fst (write_shards ec keys)) = []"
  by (induction keys) (auto split: prod.splits)

lemma map_no_send:
  "filter is_send (map PipeClose keys) = []"
  "filter is_send (map (\<lambda>idx. PipeCloseWithError idx err) keys) = []"
  "filter is_send (map (\<lambda>idx. PipeWrite idx b) keys) = []"
  by (induction keys) auto

lemma produce_segments_got_no_send:
  "filter is_send (produce_segments env t keys segs True) = []"
proof (induction segs)
  case Nil
  then show ?case by (simp add: map_no_send)
next
  case (Cons a segs)
  then show ?case
    using write_shards_no_send
    by (auto simp: map_no_send split: sum.splits prod.splits)
       (metis fst_conv)+
qed

lemma receive_pieceSize_filter:
  "receive_pieceSize evs = (case filter is_send evs of [] \<Rightarrow> 0 | e # rest \<Rightarrow> (case e of SendPieceSize n \<Rightarrow> n | _ \<Rightarrow> 0))"
proof (induction evs)
  case Nil
  then show ?case by simp
next
  case (Cons e evs)
  then show ?case by (cases e) auto
qed

lemma producer_sends:
  "filter is_send (producer_events env t sg) =
     (case first_piece_size env t of None \<Rightarrow> [] | Some n \<Rightarrow> [SendPieceSize n])"
proof (cases "segmentPieceNumber t \<le> 0")
  case True
  then show ?thesis by (simp add: producer_events_def first_piece_size_def map_no_send)
next
  case False
  then have "[0..<nat (segmentPieceNumber t)] = 0 # [1..<nat (segmentPieceNumber t)]"
    by (simp add: upt_conv_Cons)
  with False show ?thesis
    using write_shards_no_send
    by (auto simp: producer_events_def first_piece_size_def map_no_send
        produce_segments_got_no_send split: sum.splits prod.splits)
       (metis fst_conv)+
qed

subsection \<open>The memory estimate of init\<close>

lemma init_memory_estimate:
  assumes "init env t0 = (None, t, evs0)"
  shows "approximateMemSize t =
           memEstimate (float64_to_int_impl env)
             (min (unat (PayloadSize (objectInfo t0)))
                  (unat (MaxSegmentSize (fst (spDB_GetStorageParams env)))))
             (uint (RedundantDataChunkNum (fst (spDB_GetStorageParams env))
                    + RedundantParityChunkNum (fst (spDB_GetStorageParams env))))
             (RedundantDataChunkNum (fst (spDB_GetStorageParams env)))
         \<and> evs0 = [EvGetStorageParams,
                    EvGetApproval (redundancyNumber t) (redundancyNumber t * ReplicateFactor)
                      GetApprovalTimeout,
                    EvReserveMemory (approximateMemSize t)]"
  using assms
  by (auto simp: init_def Let_def word_less_nat_alt min_def
      split: prod.splits option.splits if_splits)

lemma floor_estimate:
  assumes "0 < k"
  shows "\<lfloor>(of_nat sz :: rat) * ((of_nat k + of_nat m) / of_nat k + 1)\<rfloor>
         = int ((sz * (k + m + k)) div k)"
proof -
  have "(of_nat sz :: rat) * ((of_nat k + of_nat m) / of_nat k + 1)
        = of_nat (sz * (k + m + k)) / of_nat k"
    using assms by (simp add: field_simps)
  then show ?thesis
    by (simp only: floor_divide_of_nat_eq)
qed

section \<open>The scenarios, evaluated\<close>

lemma memEstimate_k4:
  "0 \<le> rn \<Longrightarrow> rn < 2 ^ 32 \<Longrightarrow> sz * (nat rn + 4) < 2 ^ 53 \<Longrightarrow>
   memEstimate impl sz rn 4 = int (sz * (nat rn + 4) div 4)"
  using memEstimate_exact [of 4 2 rn sz impl] by simp

lemma memEstimate_k1:
  "0 \<le> rn \<Longrightarrow> rn < 2 ^ 32 \<Longrightarrow> sz * (nat rn + 1) < 2 ^ 53 \<Longrightarrow>
   memEstimate impl sz rn 1 = int (sz * (nat rn + 1))"
  using memEstimate_exact [of 1 0 rn sz impl] by simp

lemma upt_2: "[0..<2] = [0, 1]"
  by (simp add: upt_rec)

lemma upt_6: "[0..<6] = [0, 1, 2, 3, 4, 5]"
  by (simp add: upt_rec)

lemma scenario_init_4_2:
  "init (scenario_env params_4_2 eps) (scenario_task 256 7) =
     (None, scenario_ready params_4_2 256 6 eps 640,
      [EvGetStorageParams, EvGetApproval 6 6 10, EvReserveMemory 640])"
  by (simp add: init_def scenario_env_def params_4_2_def scenario_task_def scenario_ready_def
      scenario_object_def Let_def ReplicateFactor_def GetApprovalTimeout_def memEstimate_k4)

lemma scenario_init_1_0:
  "init (scenario_env params_1_0 eps) (scenario_task 256 2) =
     (None, scenario_ready params_1_0 256 1 eps 512,
      [EvGetStorageParams, EvGetApproval 1 1 10, EvReserveMemory 512])"
  by (simp add: init_def scenario_env_def params_1_0_def scenario_task_def scenario_ready_def
      scenario_object_def Let_def ReplicateFactor_def GetApprovalTimeout_def memEstimate_k1 upt_2)

text \<open>One shard, one candidate: the run replicates, signs, seals and releases.\<close>

lemma scenario_execute_1_0:
  "execute 2 (scenario_env params_1_0 [''sp1'']) (scenario_ready params_1_0 256 1 [''sp1''] 512) =
     Some (Ok ([EvUpdateJobState 1 JOB_STATE_REPLICATE_OBJECT_DOING,
                EvReplicate ''sp1'' 0,
                EvSetObjectInfo 1 ((scenario_object 256 2)\<lparr>SecondarySpAddresses := [''sp1'']\<rparr>),
                EvCacheAdd 1 [Some \<lparr>Signature = [7], IntegrityHash = [1]\<rparr>],
                EvUpdateJobState 1 JOB_STATE_SIGN_OBJECT_DOING,
                EvSealObjectOnChain
                  \<lparr>SealOperator = ''primary'', SealBucketName = ''bucket'',
                   SealObjectName = ''object'', SealSecondarySpAddresses = [''sp1''],
                   SecondarySpSignatures = [[7]]\<rparr>,
                EvUpdateJobState 1 JOB_STATE_SEAL_OBJECT_DOING,
                EvListenObjectSeal ''bucket'' ''object'' 10,
                EvUpdateJobState 1 JOB_STATE_SEAL_OBJECT_DONE,
                EvReleaseMemory 512],
               (scenario_ready params_1_0 256 1 [] 512)
                 \<lparr>objectInfo := (scenario_object 256 2)\<lparr>SecondarySpAddresses := [''sp1'']\<rparr>\<rparr>))"
  by (simp add: execute_def execute_start_def execute_exit_def Let_def scenario_ready_def
      scenario_object_def isAllSucceed_def newStreamReaderGroup_def List.insert_def
      numeral_2_eq_2 produceStreamPieceData_def producer_events_def scenario_env_def params_1_0_def
      replicate_shard_def pickSp_def mk_replicator_def streamPieceDataReplicator_replicate_def
      theSp_def scenario_sp_def pipe_reader_def upt_2)


section \<open>The claims about the replicate task\<close>

text \<open>
  Claim C4.  The claim: when a round needs more shard pipes than candidate SPs remain,
  the task aborts with the persisted job state set to \<open>REPLICATE_ERROR\<close>, no seal is
  attempted and the reserved memory is released.  The code in scenario 3 of the
  specification (six shards, a pool of five): \<open>init\<close> succeeds and reserves 640 bytes;
  the first round finds 6 pipes against 5 endpoints and returns from inside the loop.
  The only job state ever written is \<open>REPLICATE_OBJECT_DOING\<close>; the branch after the loop
  that writes \<open>REPLICATE_OBJECT_ERROR\<close> is not reached.  No seal is attempted and the 640
  bytes are released, as the claim says.
\<close>

theorem pool_exhaustion_leaves_job_state_doing:
  "init (scenario_env params_4_2 [''sp1'', ''sp2'', ''sp3'', ''sp4'', ''sp5'']) (scenario_task 256 7) =
     (None, scenario_ready params_4_2 256 6 [''sp1'', ''sp2'', ''sp3'', ''sp4'', ''sp5''] 640,
      [EvGetStorageParams, EvGetApproval 6 6 10, EvReserveMemory 640]) \<and>
   execute 1 (scenario_env params_4_2 [''sp1'', ''sp2'', ''sp3'', ''sp4'', ''sp5''])
     (scenario_ready params_4_2 256 6 [''sp1'', ''sp2'', ''sp3'', ''sp4'', ''sp5''] 640) =
     Some (Ok ([EvUpdateJobState 1 JOB_STATE_REPLICATE_OBJECT_DOING, EvReleaseMemory 640],
               (scenario_ready params_4_2 256 6 [''sp1'', ''sp2'', ''sp3'', ''sp4'', ''sp5''] 640)
                 \<lparr>objectInfo := (scenario_object 256 7)\<lparr>SecondarySpAddresses := replicate 6 []\<rparr>\<rparr>))"
  by (simp add: scenario_init_4_2 execute_def execute_start_def execute_exit_def Let_def
      scenario_ready_def scenario_object_def isAllSucceed_def newStreamReaderGroup_def upt_6
      List.insert_def)

text \<open>
  Claim C5.  When the storage parameters are loaded and the number of checksums differs
  from the redundancy number plus one, \<open>init\<close> fails with \<open>ErrInvalidParams\<close>; the only
  call made before is the one that loads the parameters, so no approval is requested
  and no memory is reserved, and the candidate pool and the memory estimate of the
  task are as they were.
\<close>

theorem init_checksum_mismatch:
  "spDB_GetStorageParams env = (p, None) \<Longrightarrow>
   int (length (Checksums (objectInfo t))) \<noteq>
     uint (RedundantDataChunkNum p + RedundantParityChunkNum p) + 1 \<Longrightarrow>
   init env t =
     (Some ErrInvalidParams,
      t\<lparr>storageParams := p,
        segmentPieceNumber :=
          uint (ComputeSegmentCount env (PayloadSize (objectInfo t)) (MaxSegmentSize p)),
        redundancyNumber := uint (RedundantDataChunkNum p + RedundantParityChunkNum p)\<rparr>,
      [EvGetStorageParams])"
  by (auto simp: init_def Let_def)

theorem init_checksum_mismatch_witness:
  "spDB_GetStorageParams (scenario_env params_4_2 [''sp1'']) = (params_4_2, None) \<and>
   int (length (Checksums (objectInfo (scenario_task 256 6)))) \<noteq>
     uint (RedundantDataChunkNum params_4_2 + RedundantParityChunkNum params_4_2) + 1 \<and>
   init (scenario_env params_4_2 [''sp1'']) (scenario_task 256 6) =
     (Some ErrInvalidParams,
      (scenario_task 256 6)\<lparr>storageParams := params_4_2, segmentPieceNumber := 1,
                              redundancyNumber := 6\<rparr>,
      [EvGetStorageParams])"
  using init_checksum_mismatch [of "scenario_env params_4_2 [''sp1'']" params_4_2 "scenario_task 256 6"]
  by (simp add: scenario_env_def params_4_2_def scenario_task_def scenario_object_def)

text \<open>
  Claim C7.  For a task whose \<open>init\<close> succeeded, \<open>init\<close> reserved memory exactly once, for
  \<open>approximateMemSize\<close> bytes; \<open>execute\<close> returns or panics within one round more than
  there are candidates (given that the sorted endpoints list the keys of the approval
  map); and every run of \<open>execute\<close> that returns, by whichever exit, has called
  \<open>ReleaseMemory\<close> exactly once, with the same number of bytes.
\<close>

theorem execute_releases_what_init_reserved:
  assumes "init env t0 = (None, t, evs0)" and "pool_ok t"
  shows "filter is_reserve evs0 = [EvReserveMemory (approximateMemSize t)] \<and>
         (\<exists>res. execute (Suc (length (sortedSpEndpoints t))) env t = Some res) \<and>
         (\<forall>fuel evs t'. execute fuel env t = Some (Ok (evs, t')) \<longrightarrow>
            filter is_release evs = [EvReleaseMemory (approximateMemSize t)])"
  using init_reserve_once [OF assms(1)] execute_returns [OF assms(2)] execute_release_once
  by blast

theorem execute_releases_what_init_reserved_witness:
  "init (scenario_env params_1_0 [''sp1'']) (scenario_task 256 2) =
     (None, scenario_ready params_1_0 256 1 [''sp1''] 512,
      [EvGetStorageParams, EvGetApproval 1 1 10, EvReserveMemory 512]) \<and>
   pool_ok (scenario_ready params_1_0 256 1 [''sp1''] 512) \<and>
   filter is_reserve [EvGetStorageParams, EvGetApproval 1 1 10, EvReserveMemory 512] =
     [EvReserveMemory 512] \<and>
   (\<exists>evs t'. execute 2 (scenario_env params_1_0 [''sp1''])
                (scenario_ready params_1_0 256 1 [''sp1''] 512) = Some (Ok (evs, t')) \<and>
              filter is_release evs = [EvReleaseMemory 512])"
proof -
  have i: "init (scenario_env params_1_0 [''sp1'']) (scenario_task 256 2) =
     (None, scenario_ready params_1_0 256 1 [''sp1''] 512,
      [EvGetStorageParams, EvGetApproval 1 1 10, EvReserveMemory 512])"
    by (rule scenario_init_1_0)
  have p: "pool_ok (scenario_ready params_1_0 256 1 [''sp1''] 512)"
    by (simp add: pool_ok_def scenario_ready_def)
  have m: "approximateMemSize (scenario_ready params_1_0 256 1 [''sp1''] 512) = 512"
    by (simp add: scenario_ready_def)
  from execute_releases_what_init_reserved [OF i p] scenario_execute_1_0 i p m
  show ?thesis by simp
qed

text \<open>
  Claim C8.  For the replicator that \<open>execute\<close> builds for shard \<open>i\<close>, once the gateway
  client exists and the secondary has answered with an integrity hash and a
  signature: the replicator succeeds if and only if the hash equals the checksum at
  index \<open>i + 1\<close> and the signature verifies, under the address parsed from the SP's
  approval address, against the Keccak-256 hash of the sign bytes of the sign document
  of operator, object id and hash; on success it returns that hash and signature; a
  hash that differs yields \<open>ErrMismatchIntegrityHash\<close>.
\<close>

theorem replicate_succeeds_iff_hash_and_signature:
  assumes "NewGatewayClient env (Endpoint (theSp sp0)) = None"
    and "ReplicateObjectPieceStream env (Endpoint (theSp sp0)) (Id_Uint64 (objectInfo t))
           (word_of_int (pieceSize sg)) (word_of_nat i) approval0 (pipe_reader i pevs)
         = Inr (integrityHash, signature)"
  shows "((\<exists>res. streamPieceDataReplicator_replicate env (mk_replicator t sg pevs i sp0 approval0)
                   = Inr res)
          \<longleftrightarrow>
          (integrityHash = Checksums (objectInfo t) ! (i + 1) \<and>
           (\<exists>approvalAddr.
              AccAddressFromHexUnsafe env (ApprovalAddress (theSp sp0)) = Inr approvalAddr \<and>
              VerifySignature env approvalAddr
                (Keccak256 env
                   (GetSignBytes env (Operator (theSp sp0)) (Id_Uint64 (objectInfo t))
                      integrityHash))
                signature = None)))
         \<and> (\<forall>res. streamPieceDataReplicator_replicate env (mk_replicator t sg pevs i sp0 approval0)
                     = Inr res
                \<longrightarrow> res = (integrityHash, signature))
         \<and> (integrityHash \<noteq> Checksums (objectInfo t) ! (i + 1) \<longrightarrow>
              streamPieceDataReplicator_replicate env (mk_replicator t sg pevs i sp0 approval0)
                = Inl ErrMismatchIntegrityHash)"
  using assms
  by (auto simp: streamPieceDataReplicator_replicate_def mk_replicator_def Let_def
      split: sum.splits option.splits)

theorem replicate_succeeds_iff_hash_and_signature_witness:
  "NewGatewayClient (scenario_env params_1_0 [''sp1''])
     (Endpoint (theSp (Some (scenario_sp ''sp1'')))) = None \<and>
   ReplicateObjectPieceStream (scenario_env params_1_0 [''sp1''])
     (Endpoint (theSp (Some (scenario_sp ''sp1''))))
     (Id_Uint64 (objectInfo (scenario_ready params_1_0 256 1 [] 512)))
     (word_of_int (pieceSize \<lparr>pieceSize = 2, streamReaderMap = [0]\<rparr>)) (word_of_nat 0)
     (Some ''sp1'') (pipe_reader 0 [SendPieceSize 2, PipeWrite 0 [1, 2], PipeClose 0])
     = Inr ([1], [7]) \<and>
   [1] = Checksums (objectInfo (scenario_ready params_1_0 256 1 [] 512)) ! (0 + 1) \<and>
   streamPieceDataReplicator_replicate (scenario_env params_1_0 [''sp1''])
     (mk_replicator (scenario_ready params_1_0 256 1 [] 512)
        \<lparr>pieceSize = 2, streamReaderMap = [0]\<rparr>
        [SendPieceSize 2, PipeWrite 0 [1, 2], PipeClose 0] 0
        (Some (scenario_sp ''sp1'')) (Some ''sp1''))
     = Inr ([1], [7])"
  using replicate_succeeds_iff_hash_and_signature
    [of "scenario_env params_1_0 [''sp1'']" "Some (scenario_sp ''sp1'')"
        "scenario_ready params_1_0 256 1 [] 512" "\<lparr>pieceSize = 2, streamReaderMap = [0]\<rparr>"
        0 "Some ''sp1''" "[SendPieceSize 2, PipeWrite 0 [1, 2], PipeClose 0]" "[1]" "[7]"]
  by (simp add: scenario_env_def scenario_ready_def scenario_object_def scenario_sp_def
      theSp_def streamPieceDataReplicator_replicate_def mk_replicator_def upt_2)

text \<open>
  Claim C10.  With a segment piece number of 0 the loops of \<open>newStreamReaderGroup\<close> never
  run, so it returns \<open>ErrInvalidParams\<close> whatever the exclude map holds; \<open>execute\<close> then
  leaves its loop in the first round with every shared variable as it was: no SP is
  picked and no replicator is started.
\<close>

theorem no_segments_no_stream_reader_group:
  "segmentPieceNumber t = 0 \<Longrightarrow>
   newStreamReaderGroup t excludeIndexMap = Inl ErrInvalidParams \<and>
   (\<exists>ex. execute_loop (Suc fuel) env rnd (execute_start env t)
            = Some (Ok (ex, execute_start env t)))"
  by (simp add: newStreamReaderGroup_def execute_start_def Let_def)

theorem no_segments_no_stream_reader_group_witness:
  "segmentPieceNumber ((scenario_ready params_4_2 0 6 [''sp1''] 0)\<lparr>segmentPieceNumber := 0\<rparr>) = 0 \<and>
   newStreamReaderGroup ((scenario_ready params_4_2 0 6 [''sp1''] 0)\<lparr>segmentPieceNumber := 0\<rparr>)
     Map.empty = Inl ErrInvalidParams"
  using no_segments_no_stream_reader_group
    [of "(scenario_ready params_4_2 0 6 [''sp1''] 0)\<lparr>segmentPieceNumber := 0\<rparr>" Map.empty]
  by simp

text \<open>
  Claim C6 as stated says the reservation equals
  \<open>min(payload_size, max_segment_size) * ((K+M)/K + 1)\<close> with exact rational division.
  The code evaluates that product in \<open>float64\<close> and converts it to \<open>int\<close>, which
  truncates: for a payload of 1 byte with K = 4 and M = 2 it reserves 2 bytes, not 5/2.
\<close>

theorem memory_estimate_is_truncated:
  "init (scenario_env params_4_2 [''sp1'']) (scenario_task 1 7) =
     (None, scenario_ready params_4_2 1 6 [''sp1''] 2,
      [EvGetStorageParams, EvGetApproval 6 6 10, EvReserveMemory 2]) \<and>
   (of_int 2 :: rat) \<noteq> of_nat (min 1 1048576) * ((4 + 2) / 4 + 1)"
  by (simp add: init_def scenario_env_def params_4_2_def scenario_task_def scenario_ready_def
      scenario_object_def Let_def ReplicateFactor_def GetApprovalTimeout_def memEstimate_k4)

text \<open>
  Claim C6, amended.  After a successful \<open>init\<close> the one reservation is for
  \<open>approximateMemSize\<close> bytes, and whenever K is a power of two, K + M fits a \<open>uint32\<close> and
  \<open>min(payload_size, max_segment_size) * (2K + M)\<close> is below \<open>2^53\<close> (so that no
  \<open>float64\<close> operation rounds), that number is the floor of
  \<open>min(payload_size, max_segment_size) * ((K+M)/K + 1)\<close> computed with exact rational
  division.  The size that enters is the payload size whenever it is below the segment
  size.
\<close>

theorem init_reserves_truncated_estimate:
  assumes ok: "init env t0 = (None, t, evs0)"
    and p: "p = fst (spDB_GetStorageParams env)"
    and sz: "sz = min (unat (PayloadSize (objectInfo t0))) (unat (MaxSegmentSize p))"
    and k: "unat (RedundantDataChunkNum p) = 2 ^ j"
    and nowrap: "unat (RedundantDataChunkNum p) + unat (RedundantParityChunkNum p) < 2 ^ 32"
    and bound: "sz * (2 * unat (RedundantDataChunkNum p) + unat (RedundantParityChunkNum p)) < 2 ^ 53"
  shows "approximateMemSize t =
           \<lfloor>(of_nat sz :: rat) *
              ((of_nat (unat (RedundantDataChunkNum p)) + of_nat (unat (RedundantParityChunkNum p)))
                 / of_nat (unat (RedundantDataChunkNum p)) + 1)\<rfloor>
         \<and> filter is_reserve evs0 = [EvReserveMemory (approximateMemSize t)]"
proof -
  let ?K = "unat (RedundantDataChunkNum p)" and ?M = "unat (RedundantParityChunkNum p)"
  let ?rn = "uint (RedundantDataChunkNum p + RedundantParityChunkNum p)"
  have rn: "?rn = int (?K + ?M)"
  proof -
    have "unat (RedundantDataChunkNum p + RedundantParityChunkNum p) = ?K + ?M"
      using nowrap by (simp add: unat_add_lem [THEN iffD1])
    then show ?thesis by (metis uint_nat)
  qed
  have nrn: "nat ?rn = ?K + ?M" unfolding rn by (rule nat_int)
  have "nat ?rn + 2 ^ j = 2 * ?K + ?M" unfolding nrn k by simp
  then have b: "sz * (nat ?rn + 2 ^ j) < 2 ^ 53"
    using bound by (simp only:)
  have rn32: "?rn < 2 ^ 32" using rn nowrap by (metis of_nat_less_numeral_power_cancel_iff)
  from init_memory_estimate [OF ok] p sz
  have "approximateMemSize t = memEstimate (float64_to_int_impl env) sz ?rn (RedundantDataChunkNum p)"
    by simp
  also have "\<dots> = int ((sz * (nat ?rn + 2 ^ j)) div 2 ^ j)"
    using k _ rn32 b by (rule memEstimate_exact) simp
  also have "\<dots> = int ((sz * (?K + ?M + ?K)) div ?K)"
    unfolding nrn k by simp
  also have "\<dots> = \<lfloor>(of_nat sz :: rat) * ((of_nat ?K + of_nat ?M) / of_nat ?K + 1)\<rfloor>"
    using floor_estimate [of ?K sz ?M] k by simp
  finally show ?thesis using init_reserve_once [OF ok] by simp
qed

theorem init_reserves_truncated_estimate_witness:
  "init (scenario_env params_4_2 [''sp1'']) (scenario_task 256 7) =
     (None, scenario_ready params_4_2 256 6 [''sp1''] 640,
      [EvGetStorageParams, EvGetApproval 6 6 10, EvReserveMemory 640]) \<and>
   unat (RedundantDataChunkNum params_4_2) = 2 ^ 2 \<and>
   unat (RedundantDataChunkNum params_4_2) + unat (RedundantParityChunkNum params_4_2) < 2 ^ 32 \<and>
   min (unat (256 :: 64 word)) (unat (MaxSegmentSize params_4_2)) = 256 \<and>
   256 * (2 * unat (RedundantDataChunkNum params_4_2) + unat (RedundantParityChunkNum params_4_2))
     < (2 :: nat) ^ 53 \<and>
   approximateMemSize (scenario_ready params_4_2 256 6 [''sp1''] 640) =
     \<lfloor>(of_nat 256 :: rat) * ((of_nat 4 + of_nat 2) / of_nat 4 + 1)\<rfloor> \<and>
   approximateMemSize (scenario_ready params_4_2 256 6 [''sp1''] 640) = 640"
proof -
  have p: "params_4_2 = fst (spDB_GetStorageParams (scenario_env params_4_2 [''sp1'']))"
    by (simp add: scenario_env_def)
  have sz: "256 = min (unat (PayloadSize (objectInfo (scenario_task 256 7))))
                      (unat (MaxSegmentSize params_4_2))"
    by (simp add: scenario_task_def scenario_object_def params_4_2_def)
  have k: "unat (RedundantDataChunkNum params_4_2) = 2 ^ 2"
    by (simp add: params_4_2_def)
  have nowrap: "unat (RedundantDataChunkNum params_4_2) + unat (RedundantParityChunkNum params_4_2)
                < 2 ^ 32"
    by (simp add: params_4_2_def)
  have bound: "256 * (2 * unat (RedundantDataChunkNum params_4_2)
                      + unat (RedundantParityChunkNum params_4_2)) < (2 :: nat) ^ 53"
    by (simp add: params_4_2_def)
  from init_reserves_truncated_estimate [OF scenario_init_4_2 p sz k nowrap bound]
  have "approximateMemSize (scenario_ready params_4_2 256 6 [''sp1''] 640) =
          \<lfloor>(of_nat 256 :: rat) * ((of_nat 4 + of_nat 2) / of_nat 4 + 1)\<rfloor>"
    by (simp add: params_4_2_def)
  moreover have "approximateMemSize (scenario_ready params_4_2 256 6 [''sp1''] 640) = 640"
    by (simp add: scenario_ready_def)
  ultimately show ?thesis
    using scenario_init_4_2 [of "[''sp1'']"] k nowrap bound sz
    by (simp add: params_4_2_def)
qed

text \<open>
  Claim C9 as stated says the producer publishes exactly one value on the piece-size
  channel in every run, also when fetching or encoding a segment fails.
  The code on a one-shard task whose piece store fails on the first segment: the
  producer closes the pipe with the error and returns without sending; the deferred
  close of the channel makes the consumer's receive yield 0.
\<close>

theorem producer_publishes_nothing_on_first_failure:
  "producer_events
     ((scenario_env params_1_0 [''sp1''])
        \<lparr>pieceStore_GetPiece := (\<lambda>k off len. Inl (ErrExternal ''unavailable''))\<rparr>)
     (scenario_ready params_1_0 256 1 [''sp1''] 512) \<lparr>pieceSize = 0, streamReaderMap = [0]\<rparr>
     = [PipeCloseWithError 0 (ErrExternal ''unavailable'')] \<and>
   length (filter is_send
     (producer_events
        ((scenario_env params_1_0 [''sp1''])
           \<lparr>pieceStore_GetPiece := (\<lambda>k off len. Inl (ErrExternal ''unavailable''))\<rparr>)
        (scenario_ready params_1_0 256 1 [''sp1''] 512) \<lparr>pieceSize = 0, streamReaderMap = [0]\<rparr>))
     \<noteq> 1 \<and>
   pieceSize (fst (produceStreamPieceData
     ((scenario_env params_1_0 [''sp1''])
        \<lparr>pieceStore_GetPiece := (\<lambda>k off len. Inl (ErrExternal ''unavailable''))\<rparr>)
     (scenario_ready params_1_0 256 1 [''sp1''] 512) \<lparr>pieceSize = 0, streamReaderMap = [0]\<rparr>))
     = 0"
  by (simp add: producer_events_def produceStreamPieceData_def scenario_env_def
      scenario_ready_def Let_def)

text \<open>
  Claim C9, amended.  The producer sends at most once.  It sends the size of the first piece
  when the first segment is fetched and encoded, whatever happens to later segments,
  and nothing when there is no such piece.  The consumer's one receive yields the
  value sent, or 0 when nothing was sent, and stores it in \<open>pieceSize\<close>; every replicator
  built from the group in that round is given this stored value.
\<close>

theorem producer_publishes_first_piece_size_once:
  "filter is_send (producer_events env t sg) =
     (case first_piece_size env t of None \<Rightarrow> [] | Some n \<Rightarrow> [SendPieceSize n]) \<and>
   pieceSize (fst (produceStreamPieceData env t sg)) =
     (case first_piece_size env t of None \<Rightarrow> 0 | Some n \<Rightarrow> n) \<and>
   snd (produceStreamPieceData env t sg) = producer_events env t sg \<and>
   rpieceSize (mk_replicator t' (fst (produceStreamPieceData env t sg)) pevs i sp0 approval0) =
     word_of_int (pieceSize (fst (produceStreamPieceData env t sg)))"
  by (simp add: producer_sends receive_pieceSize_filter produceStreamPieceData_def Let_def
      mk_replicator_def split: option.splits)

theorem producer_publishes_first_piece_size_once_witness:
  "first_piece_size (scenario_env params_1_0 [''sp1''])
     (scenario_ready params_1_0 256 1 [''sp1''] 512) = Some 2 \<and>
   filter is_send (producer_events (scenario_env params_1_0 [''sp1''])
     (scenario_ready params_1_0 256 1 [''sp1''] 512) \<lparr>pieceSize = 0, streamReaderMap = [0]\<rparr>)
     = [SendPieceSize 2] \<and>
   pieceSize (fst (produceStreamPieceData (scenario_env params_1_0 [''sp1''])
     (scenario_ready params_1_0 256 1 [''sp1''] 512) \<lparr>pieceSize = 0, streamReaderMap = [0]\<rparr>))
     = 2"
proof -
  have f: "first_piece_size (scenario_env params_1_0 [''sp1''])
             (scenario_ready params_1_0 256 1 [''sp1''] 512) = Some 2"
    by (simp add: first_piece_size_def scenario_env_def scenario_ready_def scenario_object_def
        params_1_0_def)
  from producer_publishes_first_piece_size_once
    [of "scenario_env params_1_0 [''sp1'']" "scenario_ready params_1_0 256 1 [''sp1''] 512"
        "\<lparr>pieceSize = 0, streamReaderMap = [0]\<rparr>"] f
  show ?thesis by simp
qed

end
